theory Spec2Isabelle
  imports Complex_Main
begin

section \<open>Particle animation and scroll narrative of the migration and deportation maps\<close>

text \<open>
  The development embeds the animation code of \<^verbatim>\<open>src/www/detention_journey.js\<close>. That file
  holds three scripts one after the other: the detention journey map (lines 1 to 990), a
  first version of the removal flows map (lines 991 to 1469) and the current removal flows
  map (lines 1470 to 2535). Where a name is defined in both versions of the removal map,
  the definitions below follow the current one.

  JavaScript numbers are IEEE doubles. In the animation (positions, distances, progress,
  times) they are idealised as \<^typ>\<open>real\<close> numbers: no rounding, no \<^verbatim>\<open>NaN\<close>. In the
  aggregation of the flows the counts are integers that are not negative, and the rounding
  of the sums, the quotients and the products is modelled. A value that may be missing
  (\<^verbatim>\<open>undefined\<close> or \<^verbatim>\<open>null\<close>) is an \<^typ>\<open>'a option\<close>; where the code tells the
  two apart, a datatype names them. Calls of \<^verbatim>\<open>console.log\<close> are left out.
\<close>

subsection \<open>The animated point of a highlighted person\<close>

text \<open>One stop of a person's path, as the highlights resource gives it.\<close>

record facility =
  fac_lat :: "real option"
  fac_lon :: "real option"
  facility_name :: string

record person =
  path :: "facility list option"

text \<open>
  An entry of \<^verbatim>\<open>animatedPoints\<close>. The field \<^verbatim>\<open>progress\<close> of the source is
  \<open>pt_progress\<close> here, as the particles below have a field of that name too. A trail entry is
  the triple of \<^verbatim>\<open>x\<close>, \<^verbatim>\<open>y\<close> and \<^verbatim>\<open>time\<close>.
\<close>

record animatedPoint =
  currentSegment :: int
  pt_progress :: real
  visible :: bool
  pulsePhase :: real
  trail :: "(real \<times> real \<times> real) list"

record animatedPoints =
  person1 :: animatedPoint
  person2 :: animatedPoint

definition SEGMENT_ANIMATION_SPEED :: real where
  "SEGMENT_ANIMATION_SPEED = 0.02"

text \<open>Reading an array at an index: \<^verbatim>\<open>undefined\<close> outside the array.\<close>

definition js_index :: "'a list \<Rightarrow> nat \<Rightarrow> 'a option" where
  "js_index xs i = (if i < length xs then Some (xs ! i) else None)"

text \<open>\<^verbatim>\<open>resetAnimatedPoint\<close> and \<^verbatim>\<open>startPersonAnimation\<close>, on one entry.\<close>

definition resetAnimatedPoint :: "animatedPoint \<Rightarrow> animatedPoint" where
  "resetAnimatedPoint point =
     point\<lparr>currentSegment := 0, pt_progress := 0, visible := False, pulsePhase := 0, trail := []\<rparr>"

definition startPersonAnimation :: "animatedPoint \<Rightarrow> animatedPoint" where
  "startPersonAnimation point = (resetAnimatedPoint point)\<lparr>visible := True\<rparr>"

text \<open>
  The body of the \<^verbatim>\<open>forEach\<close> of \<^verbatim>\<open>updateAnimatedPoints\<close> for one person key: the
  three early returns, the pulse, the advance along the segment, the move to the next
  segment and the stop at the end of the last one.
\<close>

definition updateAnimatedPoint :: "real \<Rightarrow> person option \<Rightarrow> animatedPoint \<Rightarrow> animatedPoint" where
  "updateAnimatedPoint deltaTime who point =
     (if \<not> visible point then point
      else case who of
        None \<Rightarrow> point
      | Some pr \<Rightarrow>
          (case path pr of
             None \<Rightarrow> point
           | Some pth \<Rightarrow>
               if length pth < 2 then point
               else
                 let point1 = point\<lparr>pulsePhase := pulsePhase point + deltaTime * 0.003\<rparr>;
                     point2 = point1\<lparr>pt_progress := pt_progress point1 + SEGMENT_ANIMATION_SPEED\<rparr>
                 in if pt_progress point2 \<ge> 1
                    then
                      let point3 = point2\<lparr>currentSegment := currentSegment point2 + 1,
                                          pt_progress := 0\<rparr>
                      in if currentSegment point3 \<ge> int (length pth) - 1
                         then point3\<lparr>currentSegment := int (length pth) - 2, pt_progress := 1\<rparr>
                         else point3
                    else point2))"

definition updateAnimatedPoints :: "real \<Rightarrow> person list \<Rightarrow> animatedPoints \<Rightarrow> animatedPoints" where
  "updateAnimatedPoints deltaTime detentionHighlights pts =
     \<lparr>person1 = updateAnimatedPoint deltaTime (js_index detentionHighlights 0) (person1 pts),
      person2 = updateAnimatedPoint deltaTime (js_index detentionHighlights 1) (person2 pts)\<rparr>"

text \<open>Frame after frame: one update for each elapsed time of the list, in order.\<close>

definition updateAnimatedPoints_frames ::
  "real list \<Rightarrow> person list \<Rightarrow> animatedPoints \<Rightarrow> animatedPoints" where
  "updateAnimatedPoints_frames deltaTimes detentionHighlights pts =
     fold (\<lambda>deltaTime. updateAnimatedPoints deltaTime detentionHighlights) deltaTimes pts"

text \<open>
  The point has completed the journey along a path: it is on the last segment, at its end.
\<close>

definition journey_completed :: "person option \<Rightarrow> animatedPoint \<Rightarrow> bool" where
  "journey_completed who point =
     (case who of
        None \<Rightarrow> False
      | Some pr \<Rightarrow>
          (case path pr of
             None \<Rightarrow> False
           | Some pth \<Rightarrow>
               2 \<le> length pth \<and> currentSegment point = int (length pth) - 2
                 \<and> pt_progress point = 1))"

text \<open>Test data: a person with three stops, and the two points after that journey.\<close>

definition stop_a :: facility where
  "stop_a = \<lparr>fac_lat = Some 41.8, fac_lon = Some (-87.6), facility_name = ''A''\<rparr>"

definition stop_b :: facility where
  "stop_b = \<lparr>fac_lat = Some 29.4, fac_lon = Some (-98.5), facility_name = ''B''\<rparr>"

definition stop_c :: facility where
  "stop_c = \<lparr>fac_lat = Some 31.8, fac_lon = Some (-106.4), facility_name = ''C''\<rparr>"

definition three_stops :: person where
  "three_stops = \<lparr>path = Some [stop_a, stop_b, stop_c]\<rparr>"

definition point_at_end :: animatedPoint where
  "point_at_end =
     \<lparr>currentSegment = 1, pt_progress = 1, visible = True, pulsePhase = 0, trail = []\<rparr>"

definition points_at_end :: animatedPoints where
  "points_at_end = \<lparr>person1 = point_at_end, person2 = point_at_end\<rparr>"

subsection \<open>Flow records\<close>

text \<open>
  A position is the pair \<^verbatim>\<open>[lon, lat]\<close>; a pixel is the pair of \<^verbatim>\<open>x\<close> and
  \<^verbatim>\<open>y\<close>.
\<close>

type_synonym coords = "real \<times> real"
type_synonym pixel = "real \<times> real"

text \<open>
  The count of a flow is a number, or \<^verbatim>\<open>null\<close>, or the field is missing
  (\<^verbatim>\<open>undefined\<close>). The two differ in arithmetic: \<^verbatim>\<open>null / 50\<close> is 0 and
  \<^verbatim>\<open>undefined / 50\<close> is \<^verbatim>\<open>NaN\<close>. Counts are integers that are not negative.
\<close>

datatype count_field = Undefined_count | Null_count | Count nat

record place =
  lat :: "real option"
  lon :: "real option"
  name :: "string option"

record flow =
  origin :: "place option"
  destination :: "place option"
  count :: count_field
  scaled_count :: "int option"

text \<open>
  The coordinates of a place whose \<^verbatim>\<open>lat\<close> and \<^verbatim>\<open>lon\<close> are both truthy, as the
  guards \<^verbatim>\<open>!p.lat || !p.lon\<close> require before \<^verbatim>\<open>[p.lon, p.lat]\<close> is built. A missing
  value and the number 0 are falsy.
\<close>

definition place_coords :: "place \<Rightarrow> coords option" where
  "place_coords p =
     (case lat p of
        None \<Rightarrow> None
      | Some la \<Rightarrow>
          if la = 0 then None
          else (case lon p of
                  None \<Rightarrow> None
                | Some lo \<Rightarrow> if lo = 0 then None else Some (lo, la)))"

subsection \<open>The libraries the scripts call\<close>

text \<open>
  The geometry library and the map are not part of the repository. They are parameters:
  \<^verbatim>\<open>turf.distance\<close>, \<^verbatim>\<open>turf.greatCircle\<close> with its \<^verbatim>\<open>npoints\<close>,
  \<^verbatim>\<open>turf.along\<close> followed by \<^verbatim>\<open>.geometry.coordinates\<close>, and \<^verbatim>\<open>map.project\<close>.
  The last two may throw: \<open>None\<close> stands for an exception. \<^verbatim>\<open>Math.random\<close> is the
  sequence of the values it returns, call after call. So is \<^verbatim>\<open>Date.now\<close> inside
  \<^verbatim>\<open>drawAnimatedPoints\<close>: \<open>date_now\<close> gives its readings during one frame, call after
  call.

  An exception is a \<^verbatim>\<open>TypeError\<close> of the language (a property read on
  \<^verbatim>\<open>undefined\<close>) or the error that a library call throws.
\<close>

record 'l library =
  turf_distance :: "coords \<Rightarrow> coords \<Rightarrow> real"
  turf_greatCircle :: "coords \<Rightarrow> coords \<Rightarrow> nat \<Rightarrow> 'l"
  turf_along :: "'l \<Rightarrow> real \<Rightarrow> coords option"
  map_project :: "coords \<Rightarrow> pixel option"
  date_now :: "nat \<Rightarrow> real"

datatype js_error = TypeError | LibraryError

subsection \<open>Particles\<close>

text \<open>
  The fields that the particles of both maps have, then the fields of the removal map's
  particles and of the detention map's. The field \<^verbatim>\<open>type\<close> of the latter is \<open>ptype\<close>.
\<close>

record 'l particle =
  line :: 'l
  distance :: real
  progress :: real
  speed :: real
  startOffset :: real
  flowIndex :: nat

record 'l flow_particle = "'l particle" +
  particleIndex :: nat
  destinationName :: "string option"
  filtered :: bool
  opacity :: real
  color :: string

record 'l detention_particle = "'l particle" +
  ptype :: string

definition SPEED_FACTOR :: real where
  "SPEED_FACTOR = 0.0009"

definition PARTICLE_RADIUS :: real where
  "PARTICLE_RADIUS = 1.8"

definition DETENTION_SPEED_FACTOR :: real where
  "DETENTION_SPEED_FACTOR = 0.005"

definition BACKGROUND_PARTICLE_RADIUS :: real where
  "BACKGROUND_PARTICLE_RADIUS = 1.5"

definition BACKGROUND_PARTICLE_COLOR :: string where
  "BACKGROUND_PARTICLE_COLOR = ''#88888850''"

definition TRANSFERS_PER_PARTICLE :: int where
  "TRANSFERS_PER_PARTICLE = 50"

definition MAX_PARTICLES_PER_ROUTE :: int where
  "MAX_PARTICLES_PER_ROUTE = 15"

subsection \<open>Building the particles of the removal map\<close>

text \<open>
  \<^verbatim>\<open>flow.scaled_count || 1\<close>: a missing or zero \<^verbatim>\<open>scaled_count\<close> gives 1, any other
  value is taken as it is. The field is an integer of the flow resource.
\<close>

definition numParticles :: "flow \<Rightarrow> int" where
  "numParticles fl = (case scaled_count fl of None \<Rightarrow> 1 | Some v \<Rightarrow> if v = 0 then 1 else v)"

text \<open>
  The body of the \<^verbatim>\<open>forEach\<close> of \<^verbatim>\<open>createParticles\<close> for one flow. \<open>r\<close> counts the
  calls of \<^verbatim>\<open>Math.random\<close> made so far; the result holds the particles pushed for this
  flow and the new count. Reading \<^verbatim>\<open>.lat\<close> of a missing origin or destination throws.
  The loop \<^verbatim>\<open>for (let i = 0; i < numParticles; i++)\<close> runs \<open>nat numParticles\<close> times: not
  at all when \<^verbatim>\<open>numParticles\<close> is negative.
\<close>

definition createParticles_flow ::
  "'l library \<Rightarrow> (nat \<Rightarrow> real) \<Rightarrow> nat \<Rightarrow> nat \<Rightarrow> flow \<Rightarrow> js_error + ('l flow_particle list \<times> nat)" where
  "createParticles_flow lib random r flowIdx fl =
     (case origin fl of
        None \<Rightarrow> Inl TypeError
      | Some org \<Rightarrow>
          (case place_coords org of
             None \<Rightarrow> Inr ([], r)
           | Some start \<Rightarrow>
               (case destination fl of
                  None \<Rightarrow> Inl TypeError
                | Some dst \<Rightarrow>
                    (case place_coords dst of
                       None \<Rightarrow> Inr ([], r)
                     | Some finish \<Rightarrow>
                         if snd start = snd finish \<and> fst start = fst finish then Inr ([], r)
                         else
                           let dist_km = turf_distance lib start finish
                           in if dist_km < 1 then Inr ([], r)
                              else
                                let route = turf_greatCircle lib start finish 100;
                                    n = nat (numParticles fl)
                                in Inr (map (\<lambda>i. \<lparr>line = route, distance = dist_km, progress = 0,
                                                   speed = SPEED_FACTOR, startOffset = random (r + i),
                                                   flowIndex = flowIdx, particleIndex = i,
                                                   destinationName = name dst, filtered = False,
                                                   opacity = 1, color = ''red''\<rparr>) [0..<n],
                                        r + n)))))"

text \<open>The \<^verbatim>\<open>forEach\<close> from flow index \<open>k\<close> on: an exception ends it.\<close>

fun createParticles_from ::
  "'l library \<Rightarrow> (nat \<Rightarrow> real) \<Rightarrow> nat \<Rightarrow> nat \<Rightarrow> flow list \<Rightarrow> js_error + 'l flow_particle list" where
  "createParticles_from lib random r k [] = Inr []"
| "createParticles_from lib random r k (fl # fls) =
     (case createParticles_flow lib random r k fl of
        Inl e \<Rightarrow> Inl e
      | Inr (ps, r') \<Rightarrow>
          (case createParticles_from lib random r' (Suc k) fls of
             Inl e \<Rightarrow> Inl e
           | Inr qs \<Rightarrow> Inr (ps @ qs)))"

definition createParticles :: "'l library \<Rightarrow> (nat \<Rightarrow> real) \<Rightarrow> flow list \<Rightarrow> js_error + 'l flow_particle list" where
  "createParticles lib random flows = createParticles_from lib random 0 0 flows"

subsection \<open>Building the particles of the detention map\<close>

text \<open>
  \<^verbatim>\<open>Math.min(MAX_PARTICLES_PER_ROUTE, Math.max(1, Math.ceil(flow.count / TRANSFERS_PER_PARTICLE)))\<close>,
  as a function of the count. A missing count makes the quotient \<^verbatim>\<open>NaN\<close>, which
  \<^verbatim>\<open>Math.ceil\<close>, \<^verbatim>\<open>Math.max\<close> and \<^verbatim>\<open>Math.min\<close> hand on: \<open>None\<close> here. A count
  that is \<^verbatim>\<open>null\<close> makes the quotient 0, as a count of 0 does.
\<close>

definition detention_scaling :: "nat \<Rightarrow> int" where
  "detention_scaling c =
     min MAX_PARTICLES_PER_ROUTE (max 1 \<lceil>real c / real_of_int TRANSFERS_PER_PARTICLE\<rceil>)"

definition detention_numParticles :: "flow \<Rightarrow> int option" where
  "detention_numParticles fl =
     (case count fl of
        Undefined_count \<Rightarrow> None
      | Null_count \<Rightarrow> Some (detention_scaling 0)
      | Count c \<Rightarrow> Some (detention_scaling c))"

text \<open>
  The body of the \<^verbatim>\<open>forEach\<close> of \<^verbatim>\<open>createDetentionParticles\<close> for one flow: the
  particles it pushes. The loop \<^verbatim>\<open>p < numParticles\<close> does not run on \<^verbatim>\<open>NaN\<close>.
\<close>

definition createDetentionParticles_flow :: "'l library \<Rightarrow> nat \<Rightarrow> flow \<Rightarrow> 'l detention_particle list" where
  "createDetentionParticles_flow lib flowIdx fl =
     (case origin fl of
        None \<Rightarrow> []
      | Some org \<Rightarrow>
          (case destination fl of
             None \<Rightarrow> []
           | Some dst \<Rightarrow>
               (case place_coords org of
                  None \<Rightarrow> []
                | Some startCoords \<Rightarrow>
                    (case place_coords dst of
                       None \<Rightarrow> []
                     | Some endCoords \<Rightarrow>
                         if snd startCoords = snd endCoords \<and> fst startCoords = fst endCoords then []
                         else
                           let dist_km = turf_distance lib startCoords endCoords
                           in if dist_km < 0.1 then []
                              else
                                let route = turf_greatCircle lib startCoords endCoords 50
                                in (case detention_numParticles fl of
                                      None \<Rightarrow> []
                                    | Some n \<Rightarrow>
                                        map (\<lambda>p. \<lparr>line = route, distance = dist_km,
                                                   progress = real p / real_of_int n,
                                                   speed = DETENTION_SPEED_FACTOR,
                                                   startOffset = real p / real_of_int n,
                                                   flowIndex = flowIdx,
                                                   ptype = ''background''\<rparr>) [0..<nat n])))))"

fun createDetentionParticles_from :: "'l library \<Rightarrow> nat \<Rightarrow> flow list \<Rightarrow> 'l detention_particle list" where
  "createDetentionParticles_from lib k [] = []"
| "createDetentionParticles_from lib k (fl # fls) =
     createDetentionParticles_flow lib k fl @ createDetentionParticles_from lib (Suc k) fls"

definition createDetentionParticles :: "'l library \<Rightarrow> flow list \<Rightarrow> 'l detention_particle list" where
  "createDetentionParticles lib flows = createDetentionParticles_from lib 0 flows"

subsection \<open>One frame of the particle animation\<close>

text \<open>
  What a frame sends to the 2D context: \<^verbatim>\<open>clearRect\<close>, and for a particle the sequence
  \<^verbatim>\<open>beginPath\<close>, \<^verbatim>\<open>arc(x, y, radius, 0, 2 * Math.PI)\<close>, \<^verbatim>\<open>fillStyle = ...\<close>,
  \<^verbatim>\<open>fill\<close>, as one command. A fill style is a template \<^verbatim>\<open>rgba(r, g, b, a)\<close>, a
  colour string, a colour string followed by an alpha value written with
  \<^verbatim>\<open>.toString(16).padStart(2, '0')\<close> (\<open>HexAlpha\<close>, which keeps the value itself), or a
  radial gradient: the six arguments of \<^verbatim>\<open>createRadialGradient\<close> and the colour stops,
  each an offset, a colour string and an alpha value.
\<close>

datatype fillStyle =
    Rgba nat nat nat real
  | Css string
  | HexAlpha string int
  | RadialGradient real real real real real real "(real \<times> string \<times> int) list"

datatype command = ClearRect real real real real | FillArc real real real fillStyle

text \<open>
  The first two statements of the body of both animation loops: the progress grows by the
  speed, and a progress of 1 or more is set back to \<^verbatim>\<open>startOffset\<close>.
\<close>

definition advance :: "('l, 'a) particle_scheme \<Rightarrow> ('l, 'a) particle_scheme" where
  "advance p =
     (let p1 = p\<lparr>progress := progress p + speed p\<rparr>
      in if progress p1 \<ge> 1 then p1\<lparr>progress := startOffset p1\<rparr> else p1)"

text \<open>
  The statements of the \<^verbatim>\<open>try\<close> block up to \<^verbatim>\<open>map.project\<close>: the pixel of the
  particle, or \<open>None\<close> when \<^verbatim>\<open>turf.along\<close> or \<^verbatim>\<open>map.project\<close> throws.
\<close>

definition sample :: "'l library \<Rightarrow> ('l, 'a) particle_scheme \<Rightarrow> pixel option" where
  "sample lib p =
     (let normalizedProgress = (progress p - startOffset p) / (1 - startOffset p);
          currentDist = distance p * normalizedProgress
      in case turf_along lib (line p) currentDist of
           None \<Rightarrow> None
         | Some coords \<Rightarrow> map_project lib coords)"

text \<open>
  The body of the \<^verbatim>\<open>forEach\<close> of \<^verbatim>\<open>drawParticles\<close> for one particle: the particle
  after the update and the commands drawn for it. The \<^verbatim>\<open>catch\<close> block is empty, so an
  exception leaves no command. \<^verbatim>\<open>p.opacity || 1.0\<close> reads an opacity of 0 as 1.
\<close>

definition drawParticle :: "'l library \<Rightarrow> 'l flow_particle \<Rightarrow> 'l flow_particle \<times> command list" where
  "drawParticle lib p0 =
     (let p = advance p0
      in (p,
          if progress p \<ge> startOffset p
          then (case sample lib p of
                  None \<Rightarrow> []
                | Some (px, py) \<Rightarrow>
                    let baseOpacity = 0.5;
                        finalOpacity = baseOpacity * (if opacity p = 0 then 1 else opacity p)
                    in [FillArc px py PARTICLE_RADIUS
                          (if color p = ''gray'' then Rgba 128 128 128 finalOpacity
                           else Rgba 255 0 0 finalOpacity)])
          else []))"

text \<open>
  The state of the removal map that the animation and the filter use. The canvas is its
  width and height once it exists; \<open>ctx\<close> tells whether the 2D context exists.
\<close>

datatype filter_key = Undefined | Null | Name string

record 'l mapState =
  animationActive :: bool
  canvas :: "(real \<times> real) option"
  ctx :: bool
  particles :: "'l flow_particle list"
  selectedCountryName :: filter_key

text \<open>
  \<^verbatim>\<open>drawParticles\<close>: the new state, the commands of the frame, and whether the next frame
  was requested (\<^verbatim>\<open>requestAnimationFrame\<close> is the last statement).
\<close>

definition drawParticles :: "'l library \<Rightarrow> 'l mapState \<Rightarrow> 'l mapState \<times> command list \<times> bool" where
  "drawParticles lib st =
     (case canvas st of
        None \<Rightarrow> (st, [], False)
      | Some (w, h) \<Rightarrow>
          if \<not> animationActive st \<or> \<not> ctx st then (st, [], False)
          else
            let drawn = map (drawParticle lib) (particles st)
            in (st\<lparr>particles := map fst drawn\<rparr>,
                ClearRect 0 0 w h # concat (map snd drawn),
                True))"

text \<open>
  The frames that follow one another. The map may move between two frames, so each frame
  has its own library value. The commands of all frames are collected in order.
\<close>

fun drawParticles_frames :: "'l library list \<Rightarrow> 'l mapState \<Rightarrow> 'l mapState \<times> command list list" where
  "drawParticles_frames [] st = (st, [])"
| "drawParticles_frames (lib # libs) st =
     (case drawParticles lib st of
        (st1, cmds, _) \<Rightarrow>
          (case drawParticles_frames libs st1 of
             (st2, rest) \<Rightarrow> (st2, cmds # rest)))"

text \<open>
  The body of the background loop of \<^verbatim>\<open>drawDetentionParticles\<close> for one particle. Its
  \<^verbatim>\<open>catch\<close> block is empty as well.
\<close>

definition drawDetentionParticle ::
  "'l library \<Rightarrow> 'l detention_particle \<Rightarrow> 'l detention_particle \<times> command list" where
  "drawDetentionParticle lib p0 =
     (let p = advance p0
      in (p,
          if progress p \<ge> startOffset p
          then (case sample lib p of
                  None \<Rightarrow> []
                | Some (px, py) \<Rightarrow>
                    [FillArc px py BACKGROUND_PARTICLE_RADIUS (Css BACKGROUND_PARTICLE_COLOR)])
          else []))"

text \<open>
  The state of the detention map that the animation uses. \<open>detentionMap\<close> tells whether
  the map object exists.
\<close>

record 'l detentionState =
  detentionAnimationActive :: bool
  detentionCanvas :: "(real \<times> real) option"
  detentionCtx :: bool
  detentionMap :: bool
  stopBackgroundParticles :: bool
  detentionParticles :: "'l detention_particle list"
  detentionHighlights :: "person list"
  animatedPoints :: animatedPoints
  lastFrameTime :: real

text \<open>
  Reading an array at an index that may be negative, and the position \<^verbatim>\<open>[lon, lat]\<close> of
  a stop whose \<^verbatim>\<open>lat\<close> and \<^verbatim>\<open>lon\<close> are both truthy.
\<close>

definition js_index_int :: "'a list \<Rightarrow> int \<Rightarrow> 'a option" where
  "js_index_int xs i = (if 0 \<le> i \<and> nat i < length xs then Some (xs ! nat i) else None)"

definition facility_coords :: "facility \<Rightarrow> coords option" where
  "facility_coords f =
     (case fac_lat f of
        None \<Rightarrow> None
      | Some la \<Rightarrow>
          if la = 0 then None
          else (case fac_lon f of
                  None \<Rightarrow> None
                | Some lo \<Rightarrow> if lo = 0 then None else Some (lo, la)))"

text \<open>
  The statements of \<^verbatim>\<open>drawAnimatedPoints\<close> that follow \<^verbatim>\<open>map.project\<close>, for the point
  of one person at the pixel \<open>(px, py)\<close>: the new entry is pushed on the trail with a
  reading of the clock, the filter reads the clock once for each entry, and the circles of
  the trail, the glow, the point and its centre are drawn. \<open>r\<close> counts the readings of
  the clock made so far in the frame. The result is the point, the commands and the new
  count.
\<close>

definition trail_kept :: "'l library \<Rightarrow> nat \<Rightarrow> (real \<times> real \<times> real) list \<Rightarrow> (real \<times> real \<times> real) list" where
  "trail_kept lib r entries =
     map snd (filter (\<lambda>(i, t). date_now lib (r + i) - snd (snd t) < 200)
                (zip [0..<length entries] entries))"

definition drawPointAt ::
  "'l library \<Rightarrow> nat \<Rightarrow> nat \<Rightarrow> animatedPoint \<Rightarrow> pixel \<Rightarrow> animatedPoint \<times> command list \<times> nat" where
  "drawPointAt lib r personIndex point0 pixel =
     (let color = (if personIndex = 0 then ''#ff0000'' else ''#0066ff'');
          pulseIntensity = 0.7 + 0.3 * sin (pulsePhase point0);
          baseRadius = 6;
          pulseRadius = baseRadius * pulseIntensity;
          pushed = trail point0 @ [(fst pixel, snd pixel, date_now lib r)];
          point = point0\<lparr>trail := trail_kept lib (Suc r) pushed\<rparr>;
          n = length (trail point)
      in (point,
          (if n > 1
           then map (\<lambda>i. FillArc (fst (trail point ! i)) (fst (snd (trail point ! i)))
                            (baseRadius * 0.3)
                            (HexAlpha color \<lfloor>real i / real n * 0.3 * pulseIntensity * 255\<rfloor>))
                  [0..<n - 1]
           else [])
          @ [FillArc (fst pixel) (snd pixel) (pulseRadius + 4)
               (RadialGradient (fst pixel) (snd pixel) 0 (fst pixel) (snd pixel) (pulseRadius + 4)
                  [(0, color, \<lfloor>100 * pulseIntensity\<rfloor>),
                   (0.5, color, \<lfloor>40 * pulseIntensity\<rfloor>),
                   (1, color, 0)]),
             FillArc (fst pixel) (snd pixel) pulseRadius (HexAlpha color \<lfloor>220 * pulseIntensity\<rfloor>),
             FillArc (fst pixel) (snd pixel) (pulseRadius * 0.3) (Css ''#ffffff'')],
          Suc r + length pushed))"

text \<open>
  The body of the \<^verbatim>\<open>forEach\<close> of \<^verbatim>\<open>drawAnimatedPoints\<close> for one person key. The
  early returns leave the point as it is and draw nothing. Nothing catches an exception
  here: reading \<^verbatim>\<open>.lat\<close> of a stop that the path does not have is a \<^verbatim>\<open>TypeError\<close>,
  and an exception of \<^verbatim>\<open>turf.along\<close> or \<^verbatim>\<open>detentionMap.project\<close> leaves the
  function before the trail is touched.
\<close>

definition drawAnimatedPoint ::
  "'l library \<Rightarrow> nat \<Rightarrow> nat \<Rightarrow> person option \<Rightarrow> animatedPoint
     \<Rightarrow> js_error + (animatedPoint \<times> command list \<times> nat)" where
  "drawAnimatedPoint lib r personIndex who point =
     (if \<not> visible point then Inr (point, [], r)
      else case who of
        None \<Rightarrow> Inr (point, [], r)
      | Some pr \<Rightarrow>
          (case path pr of
             None \<Rightarrow> Inr (point, [], r)
           | Some pth \<Rightarrow>
               if length pth < 2 then Inr (point, [], r)
               else
                 let segmentIdx = currentSegment point
                 in if segmentIdx \<ge> int (length pth) - 1 then Inr (point, [], r)
                    else
                      (case js_index_int pth segmentIdx of
                         None \<Rightarrow> Inl TypeError
                       | Some start \<Rightarrow>
                           (case facility_coords start of
                              None \<Rightarrow> Inr (point, [], r)
                            | Some startCoords \<Rightarrow>
                                (case js_index_int pth (segmentIdx + 1) of
                                   None \<Rightarrow> Inl TypeError
                                 | Some finish \<Rightarrow>
                                     (case facility_coords finish of
                                        None \<Rightarrow> Inr (point, [], r)
                                      | Some endCoords \<Rightarrow>
                                          let dist_km = turf_distance lib startCoords endCoords;
                                              route = turf_greatCircle lib startCoords endCoords 50;
                                              currentDist = dist_km * pt_progress point
                                          in (case turf_along lib route currentDist of
                                                None \<Rightarrow> Inl LibraryError
                                              | Some coords \<Rightarrow>
                                                  (case map_project lib coords of
                                                     None \<Rightarrow> Inl LibraryError
                                                   | Some pixel \<Rightarrow>
                                                       Inr (drawPointAt lib r personIndex point pixel)))))))))"

text \<open>
  \<^verbatim>\<open>drawAnimatedPoints\<close>: the guard, then the body for \<^verbatim>\<open>person1\<close> and for
  \<^verbatim>\<open>person2\<close>. An exception ends the \<^verbatim>\<open>forEach\<close> and the function: the result holds
  the state and the commands of what was done before, and the exception.
\<close>

definition drawAnimatedPoints ::
  "'l library \<Rightarrow> 'l detentionState \<Rightarrow> 'l detentionState \<times> command list \<times> js_error option" where
  "drawAnimatedPoints lib st =
     (if detentionCanvas st = None \<or> \<not> detentionCtx st \<or> \<not> detentionMap st then (st, [], None)
      else
        (case drawAnimatedPoint lib 0 0 (js_index (detentionHighlights st) 0)
                (person1 (animatedPoints st)) of
           Inl e \<Rightarrow> (st, [], Some e)
         | Inr (point1, cmds1, r1) \<Rightarrow>
             let st1 = st\<lparr>animatedPoints := (animatedPoints st)\<lparr>person1 := point1\<rparr>\<rparr>
             in (case drawAnimatedPoint lib r1 1 (js_index (detentionHighlights st1) 1)
                        (person2 (animatedPoints st1)) of
                   Inl e \<Rightarrow> (st1, cmds1, Some e)
                 | Inr (point2, cmds2, r2) \<Rightarrow>
                     (st1\<lparr>animatedPoints := (animatedPoints st1)\<lparr>person2 := point2\<rparr>\<rparr>,
                      cmds1 @ cmds2, None))))"

text \<open>
  How a call of \<^verbatim>\<open>drawDetentionParticles\<close> ends: at its guard, at its last statement
  \<^verbatim>\<open>requestAnimationFrame(drawDetentionParticles)\<close>, or with an exception before that
  statement, so that no further frame is requested.
\<close>

datatype frame_end = Not_started | Next_frame_requested | Aborted js_error

text \<open>
  \<^verbatim>\<open>drawDetentionParticles\<close>: the new state, the commands sent to the context and how
  the call ends. \<open>currentTime\<close> is the reading of \<^verbatim>\<open>Date.now()\<close> at its start. In the
  background loop \<^verbatim>\<open>detentionMap.project\<close> throws when the map does not exist, inside
  the \<^verbatim>\<open>try\<close> block. The frame goes on with \<^verbatim>\<open>updateAnimatedPoints\<close> and
  \<^verbatim>\<open>drawAnimatedPoints\<close>, which no \<^verbatim>\<open>try\<close> block surrounds. \<^verbatim>\<open>updateDetentionCounter\<close>
  only writes text into the page, behind its own guards, and is left out.
\<close>

definition drawDetentionParticles ::
  "'l library \<Rightarrow> real \<Rightarrow> 'l detentionState \<Rightarrow> 'l detentionState \<times> command list \<times> frame_end" where
  "drawDetentionParticles lib currentTime st =
     (case detentionCanvas st of
        None \<Rightarrow> (st, [], Not_started)
      | Some (w, h) \<Rightarrow>
          if \<not> detentionAnimationActive st \<or> \<not> detentionCtx st then (st, [], Not_started)
          else
            let deltaTime = currentTime - lastFrameTime st;
                st1 = st\<lparr>lastFrameTime := currentTime\<rparr>;
                lib1 = (if detentionMap st1 then lib else lib\<lparr>map_project := (\<lambda>c. None)\<rparr>);
                drawn = (if \<not> stopBackgroundParticles st1
                         then map (drawDetentionParticle lib1) (detentionParticles st1)
                         else map (\<lambda>p. (p, [])) (detentionParticles st1));
                st2 = st1\<lparr>detentionParticles := map fst drawn\<rparr>;
                st3 = st2\<lparr>animatedPoints :=
                             updateAnimatedPoints deltaTime (detentionHighlights st2) (animatedPoints st2)\<rparr>
            in (case drawAnimatedPoints lib st3 of
                  (st4, cmds, thrown) \<Rightarrow>
                    (st4, ClearRect 0 0 w h # concat (map snd drawn) @ cmds,
                     (case thrown of None \<Rightarrow> Next_frame_requested | Some e \<Rightarrow> Aborted e))))"

subsection \<open>The destination filter of the removal map\<close>

text \<open>
  The body of the \<^verbatim>\<open>forEach\<close> of \<^verbatim>\<open>filterParticlesByDestination\<close> for one particle.
  The argument is \<^verbatim>\<open>undefined\<close>, \<^verbatim>\<open>null\<close> or a string.
\<close>

definition filterParticle :: "filter_key \<Rightarrow> 'l flow_particle \<Rightarrow> 'l flow_particle" where
  "filterParticle k p =
     (case k of
        Undefined \<Rightarrow> p\<lparr>filtered := False, opacity := 1, color := ''red''\<rparr>
      | Null \<Rightarrow> p\<lparr>filtered := True, opacity := 0.2, color := ''gray''\<rparr>
      | Name key \<Rightarrow>
          let p1 = p\<lparr>filtered := (destinationName p \<noteq> Some key)\<rparr>;
              p2 = p1\<lparr>opacity := (if filtered p1 then 0.5 else 1)\<rparr>
          in p2\<lparr>color := (if filtered p2 then ''gray'' else ''red'')\<rparr>)"

definition filterParticlesByDestination :: "filter_key \<Rightarrow> 'l mapState \<Rightarrow> 'l mapState" where
  "filterParticlesByDestination k st =
     (if canvas st = None \<or> \<not> ctx st \<or> particles st = [] then st
      else st\<lparr>selectedCountryName := k, particles := map (filterParticle k) (particles st)\<rparr>)"

text \<open>What a frame shows of a particle: its colour and its opacity.\<close>

definition appearance :: "'l flow_particle \<Rightarrow> string \<times> real" where
  "appearance p = (color p, opacity p)"

text \<open>
  \<^verbatim>\<open>animatedPoints[personKey]\<close> for the key at \<open>personIndex\<close> of
  \<^verbatim>\<open>['person1', 'person2']\<close>.
\<close>

definition animatedPoints_at :: "animatedPoints \<Rightarrow> nat \<Rightarrow> animatedPoint" where
  "animatedPoints_at pts personIndex = (if personIndex = 0 then person1 pts else person2 pts)"

text \<open>
  The frames of the detention map that follow one another, each with its library value
  and its clock reading (\<^verbatim>\<open>Date.now()\<close>).
\<close>

fun drawDetentionParticles_frames ::
  "('l library \<times> real) list \<Rightarrow> 'l detentionState \<Rightarrow> 'l detentionState \<times> command list list" where
  "drawDetentionParticles_frames [] st = (st, [])"
| "drawDetentionParticles_frames ((lib, currentTime) # rest) st =
     (case drawDetentionParticles lib currentTime st of
        (st1, cmds, _) \<Rightarrow>
          (case drawDetentionParticles_frames rest st1 of
             (st2, later) \<Rightarrow> (st2, cmds # later)))"

text \<open>
  Whether the next update of the particle wraps, and whether one of its next \<open>n\<close> updates
  does.
\<close>

definition wraps :: "('l, 'a) particle_scheme \<Rightarrow> bool" where
  "wraps p = (progress p + speed p \<ge> 1)"

fun has_wrapped :: "nat \<Rightarrow> ('l, 'a) particle_scheme \<Rightarrow> bool" where
  "has_wrapped 0 p = False"
| "has_wrapped (Suc n) p = (wraps p \<or> has_wrapped n (advance p))"

text \<open>
  Test data. A stand-in for the geometry library and the map: distances of 111 km per
  degree along both axes, a line given by its two ends, positions by linear interpolation,
  a projection that throws west of 100 degrees, and a clock that advances by one at each
  reading.
\<close>

definition grid_distance :: "coords \<Rightarrow> coords \<Rightarrow> real" where
  "grid_distance a b = 111 * (\<bar>fst a - fst b\<bar> + \<bar>snd a - snd b\<bar>)"

definition grid_greatCircle :: "coords \<Rightarrow> coords \<Rightarrow> nat \<Rightarrow> coords \<times> coords" where
  "grid_greatCircle a b npoints = (a, b)"

definition grid_along :: "coords \<times> coords \<Rightarrow> real \<Rightarrow> coords option" where
  "grid_along seg d =
     (let a = fst seg; b = snd seg; t = d / grid_distance a b
      in Some (fst a + t * (fst b - fst a), snd a + t * (snd b - snd a)))"

definition east_project :: "coords \<Rightarrow> pixel option" where
  "east_project c = (if fst c < - 100 then None else Some (10 * (fst c + 180), 10 * (90 - snd c)))"

definition grid_library :: "(coords \<times> coords) library" where
  "grid_library =
     \<lparr>turf_distance = grid_distance, turf_greatCircle = grid_greatCircle,
      turf_along = grid_along, map_project = east_project, date_now = (\<lambda>i. 40 + real i)\<rparr>"

definition half_random :: "nat \<Rightarrow> real" where
  "half_random i = (if i = 0 then 0.5 else 0.99)"

definition california :: place where
  "california = \<lparr>lat = Some 36, lon = Some (- 120), name = Some ''CA''\<rparr>"

definition texas :: place where
  "texas = \<lparr>lat = Some 31, lon = Some (- 99), name = Some ''TX''\<rparr>"

definition mexico :: place where
  "mexico = \<lparr>lat = Some 23, lon = Some (- 102), name = Some ''Mexico''\<rparr>"

definition guatemala :: place where
  "guatemala = \<lparr>lat = Some 15, lon = Some (- 90), name = Some ''Guatemala''\<rparr>"

definition flow_ca_mexico :: flow where
  "flow_ca_mexico =
     \<lparr>origin = Some california, destination = Some mexico, count = Count 100, scaled_count = Some 1\<rparr>"

definition flow_tx_mexico :: flow where
  "flow_tx_mexico =
     \<lparr>origin = Some texas, destination = Some mexico, count = Count 50, scaled_count = None\<rparr>"

definition flow_ca_guatemala :: flow where
  "flow_ca_guatemala =
     \<lparr>origin = Some california, destination = Some guatemala, count = Count 30, scaled_count = Some 1\<rparr>"

text \<open>Two particles as \<^verbatim>\<open>createParticles\<close> builds them, and a running map with them.\<close>

definition particle_tx_mexico :: "(coords \<times> coords) flow_particle" where
  "particle_tx_mexico =
     \<lparr>line = ((- 99, 31), (- 102, 23)), distance = 1221, progress = 0, speed = SPEED_FACTOR,
      startOffset = 0.5, flowIndex = 0, particleIndex = 0, destinationName = Some ''Mexico'',
      filtered = False, opacity = 1, color = ''red''\<rparr>"

definition particle_ca_guatemala :: "(coords \<times> coords) flow_particle" where
  "particle_ca_guatemala =
     \<lparr>line = ((- 120, 36), (- 90, 15)), distance = 5661, progress = 0, speed = SPEED_FACTOR,
      startOffset = 0.99, flowIndex = 1, particleIndex = 0, destinationName = Some ''Guatemala'',
      filtered = False, opacity = 1, color = ''red''\<rparr>"

definition running_map :: "(coords \<times> coords) mapState" where
  "running_map =
     \<lparr>animationActive = True, canvas = Some (800, 600), ctx = True,
      particles = [particle_tx_mexico, particle_ca_guatemala], selectedCountryName = Undefined\<rparr>"

text \<open>
  The guards of \<^verbatim>\<open>drawParticles\<close> let the frame run; the guards of
  \<^verbatim>\<open>drawDetentionParticles\<close> do, and the background particles are not stopped.
\<close>

definition animation_running :: "'l mapState \<Rightarrow> bool" where
  "animation_running st = (animationActive st \<and> canvas st \<noteq> None \<and> ctx st)"

definition detention_running :: "'l detentionState \<Rightarrow> bool" where
  "detention_running st =
     (detentionAnimationActive st \<and> detentionCanvas st \<noteq> None \<and> detentionCtx st
        \<and> \<not> stopBackgroundParticles st)"

text \<open>The commands drawn for one particle, frame after frame.\<close>

fun particle_frames :: "'l library list \<Rightarrow> 'l flow_particle \<Rightarrow> command list list" where
  "particle_frames [] p = []"
| "particle_frames (lib # libs) p =
     snd (drawParticle lib p) # particle_frames libs (fst (drawParticle lib p))"

text \<open>
  Test data: the running map with both particles close to the end of their paths, and a
  running detention map whose two particles, built by \<^verbatim>\<open>createDetentionParticles\<close>, are
  close to the end as well.
\<close>

definition late_map :: "(coords \<times> coords) mapState" where
  "late_map =
     running_map\<lparr>particles := [particle_tx_mexico\<lparr>progress := 0.9995\<rparr>,
                               particle_ca_guatemala\<lparr>progress := 0.9995\<rparr>]\<rparr>"

definition detention_map :: "(coords \<times> coords) detentionState" where
  "detention_map =
     \<lparr>detentionAnimationActive = True, detentionCanvas = Some (800, 600), detentionCtx = True,
      detentionMap = True, stopBackgroundParticles = False,
      detentionParticles =
        map (\<lambda>p. p\<lparr>progress := 0.999\<rparr>) (createDetentionParticles grid_library [flow_ca_mexico]),
      detentionHighlights = [three_stops], animatedPoints = points_at_end, lastFrameTime = 0\<rparr>"

text \<open>
  Test data: a map whose first particle is west of 100 degrees, where the projection of the
  test library throws, and whose second particle is not; and a library whose projection
  never throws.
\<close>

definition west_particle :: "(coords \<times> coords) flow_particle" where
  "west_particle = particle_ca_guatemala\<lparr>progress := 0.99\<rparr>"

definition east_particle :: "(coords \<times> coords) flow_particle" where
  "east_particle = particle_tx_mexico\<lparr>progress := 0.5991\<rparr>"

definition west_map :: "(coords \<times> coords) mapState" where
  "west_map = running_map\<lparr>particles := [west_particle, east_particle]\<rparr>"







subsection \<open>Leaving a step of the narrative\<close>

text \<open>
  The scroll library calls the exit handler of a section with the step left and the scroll
  direction (\<^verbatim>\<open>'up'\<close> or \<^verbatim>\<open>'down'\<close>). A handler is modelled by the effects it causes, each
  with the delay of its \<^verbatim>\<open>setTimeout\<close> in milliseconds (0 when it is immediate). The page
  tells what the handler finds: the \<^verbatim>\<open>article\<close> element, the map of the section, and
  \<^verbatim>\<open>window.showDataSourcesOverlay\<close>; they are taken not to change during the delay.
\<close>

datatype direction = Up | Down

record response =
  index :: nat
  direction :: direction
  className :: string

record page =
  article_present :: bool
  map_present :: bool
  overlay_function_present :: bool

datatype effect =
    AddClass string string
  | FlyTo coords real real real real
  | FadeOutSteps string
  | ShowDataSourcesOverlay

type_synonym scheduled = "nat \<times> effect"

text \<open>\<^verbatim>\<open>String.prototype.includes\<close>: the second string occurs in the first.\<close>

fun starts_with :: "string \<Rightarrow> string \<Rightarrow> bool" where
  "starts_with s [] = True"
| "starts_with [] (c # cs) = False"
| "starts_with (d # ds) (c # cs) = (d = c \<and> starts_with ds cs)"

fun js_includes :: "string \<Rightarrow> string \<Rightarrow> bool" where
  "js_includes [] sub = (sub = [])"
| "js_includes (d # ds) sub = (starts_with (d # ds) sub \<or> js_includes ds sub)"

text \<open>
  \<^verbatim>\<open>flyToDefault\<close> of the removal map and \<^verbatim>\<open>flyToDetentionDefault\<close>: a flight to the
  centre, zoom, pitch and bearing of the default camera at speed 0.6, when the map exists.
\<close>

definition flyToDefault :: "page \<Rightarrow> effect list" where
  "flyToDefault pg = (if \<not> map_present pg then [] else [FlyTo (- 85, 20) 2.5 0 0 0.6])"

definition flyToDetentionDefault :: "page \<Rightarrow> effect list" where
  "flyToDetentionDefault pg = (if \<not> map_present pg then [] else [FlyTo (- 98, 38) 4 0 0 0.6])"

text \<open>\<^verbatim>\<open>handleStepExit\<close> of the removal map.\<close>

definition handleStepExit :: "page \<Rightarrow> response \<Rightarrow> scheduled list" where
  "handleStepExit pg r =
     (if index r = 4 \<and> direction r = Down
      then (if article_present pg then [(0, AddClass ''#scrolly article'' ''exiting'')] else [])
           @ map (Pair 100) (flyToDefault pg @ [FadeOutSteps ''#scrolly article .step''])
      else [])"

text \<open>
  The two functions that \<^verbatim>\<open>initDetentionScrollytelling\<close> passes to \<^verbatim>\<open>onStepExit\<close>, in
  the order of the two calls.
\<close>

definition detention_onStepExit_first :: "page \<Rightarrow> response \<Rightarrow> scheduled list" where
  "detention_onStepExit_first pg r =
     (if js_includes (className r) ''interactive-step'' \<and> direction r = Down
      then (if article_present pg
            then [(0, AddClass ''#detention-section article'' ''exiting'')] else [])
           @ map (Pair 100)
               (flyToDetentionDefault pg @ [FadeOutSteps ''#detention-section article .step''])
      else [])"

definition detention_onStepExit_second :: "page \<Rightarrow> response \<Rightarrow> scheduled list" where
  "detention_onStepExit_second pg r =
     (if js_includes (className r) ''interactive-step'' \<and> direction r = Down
      then map (Pair 500) (if overlay_function_present pg then [ShowDataSourcesOverlay] else [])
      else [])"

text \<open>The effects that a handler triggers, whatever their delay.\<close>

definition triggered :: "scheduled list \<Rightarrow> effect list" where
  "triggered sch = map snd sch"

text \<open>Test data: a page with everything in place, and the exit of the last step downward.\<close>

definition full_page :: page where
  "full_page = \<lparr>article_present = True, map_present = True, overlay_function_present = True\<rparr>"

definition exit_last_down :: response where
  "exit_last_down = \<lparr>index = 4, direction = Down, className = ''step interactive-step''\<rparr>"

definition exit_last_up :: response where
  "exit_last_up = \<lparr>index = 4, direction = Up, className = ''step interactive-step''\<rparr>"

subsection \<open>Which flows get particles\<close>

text \<open>
  The two ends of a flow whose origin and destination are present with truthy coordinates;
  a flow whose origin and destination have the same \<^verbatim>\<open>lat\<close> and the same \<^verbatim>\<open>lon\<close>; a
  flow whose ends are closer than a distance; and a flow that passes every guard of the
  particle construction with that distance as the threshold.
\<close>

definition endpoints :: "flow \<Rightarrow> (coords \<times> coords) option" where
  "endpoints fl =
     (case origin fl of
        None \<Rightarrow> None
      | Some org \<Rightarrow>
          (case destination fl of
             None \<Rightarrow> None
           | Some dst \<Rightarrow>
               (case place_coords org of
                  None \<Rightarrow> None
                | Some a \<Rightarrow>
                    (case place_coords dst of None \<Rightarrow> None | Some b \<Rightarrow> Some (a, b)))))"

definition coincident :: "flow \<Rightarrow> bool" where
  "coincident fl =
     (case origin fl of
        None \<Rightarrow> False
      | Some org \<Rightarrow>
          (case destination fl of
             None \<Rightarrow> False
           | Some dst \<Rightarrow> lat org = lat dst \<and> lon org = lon dst))"

definition closer_than :: "'l library \<Rightarrow> real \<Rightarrow> flow \<Rightarrow> bool" where
  "closer_than lib eps fl =
     (case endpoints fl of None \<Rightarrow> False | Some (a, b) \<Rightarrow> turf_distance lib a b < eps)"

definition passes_guards :: "'l library \<Rightarrow> real \<Rightarrow> flow \<Rightarrow> bool" where
  "passes_guards lib eps fl =
     (case endpoints fl of
        None \<Rightarrow> False
      | Some (a, b) \<Rightarrow> a \<noteq> b \<and> eps \<le> turf_distance lib a b)"

text \<open>
  Test data: a flow of one removal with a \<^verbatim>\<open>scaled_count\<close> of 16, a flow from a place to
  itself, and a flow between two places 55.5 km apart on the test grid.
\<close>

definition flow_scaled_16 :: flow where
  "flow_scaled_16 =
     \<lparr>origin = Some texas, destination = Some mexico, count = Count 1, scaled_count = Some 16\<rparr>"

definition flow_tx_tx :: flow where
  "flow_tx_tx =
     \<lparr>origin = Some texas, destination = Some texas, count = Count 40, scaled_count = Some 2\<rparr>"

definition near_texas :: place where
  "near_texas = \<lparr>lat = Some 31, lon = Some (- 99.0005), name = Some ''TX annex''\<rparr>"

definition flow_tx_near :: flow where
  "flow_tx_near =
     \<lparr>origin = Some texas, destination = Some near_texas, count = Count 40, scaled_count = Some 2\<rparr>"

subsection \<open>Aggregating the flows by destination\<close>

text \<open>
  An object that \<^verbatim>\<open>{}\<close> creates and the code uses as a dictionary is the list of its own
  properties in the order of their creation. Assigning to an existing property keeps its
  place; a new property goes to the end. Reading a name that the object does not own
  finds the property of that name of \<^verbatim>\<open>Object.prototype\<close>, when there is one: the names
  below, each a built-in function, but for \<^verbatim>\<open>__proto__\<close>, whose value is
  \<^verbatim>\<open>Object.prototype\<close> itself. All of these values are truthy.
\<close>

type_synonym 'v object = "(string \<times> 'v) list"

definition object_prototype_names :: "string list" where
  "object_prototype_names =
     [''constructor'', ''__defineGetter__'', ''__defineSetter__'', ''hasOwnProperty'',
      ''__lookupGetter__'', ''__lookupSetter__'', ''isPrototypeOf'', ''propertyIsEnumerable'',
      ''toString'', ''valueOf'', ''__proto__'', ''toLocaleString'']"

definition inherited :: "string \<Rightarrow> bool" where
  "inherited n = (n \<in> set object_prototype_names)"

fun obj_set :: "string \<Rightarrow> 'v \<Rightarrow> 'v object \<Rightarrow> 'v object" where
  "obj_set k v [] = [(k, v)]"
| "obj_set k v ((k', v') # kvs) =
     (if k' = k then (k, v) # kvs else (k', v') # obj_set k v kvs)"

definition obj_map :: "string \<Rightarrow> ('v \<Rightarrow> 'v) \<Rightarrow> 'v object \<Rightarrow> 'v object" where
  "obj_map k f obj = map (\<lambda>(k', v). if k' = k then (k', f v) else (k', v)) obj"

text \<open>
  The order in which \<^verbatim>\<open>Object.keys\<close> lists the properties: first the keys that are
  array indices (the decimal numerals without a leading zero of the integers from 0 to
  \<open>2\<^sup>3\<^sup>2 - 2\<close>) in ascending numeric order, then all other keys in the order of their
  creation.
\<close>

definition is_digit :: "char \<Rightarrow> bool" where
  "is_digit c = (c \<in> set ''0123456789'')"

definition index_value :: "string \<Rightarrow> nat" where
  "index_value s = fold (\<lambda>c acc. 10 * acc + (of_char c - 48)) s 0"

definition is_array_index :: "string \<Rightarrow> bool" where
  "is_array_index s =
     (s \<noteq> [] \<and> list_all is_digit s \<and> (s = ''0'' \<or> hd s \<noteq> CHR ''0'')
        \<and> index_value s < 4294967295)"

definition object_entries :: "'v object \<Rightarrow> 'v object" where
  "object_entries obj =
     sort_key (\<lambda>kv. index_value (fst kv)) (filter (\<lambda>kv. is_array_index (fst kv)) obj)
       @ filter (\<lambda>kv. \<not> is_array_index (fst kv)) obj"

text \<open>
  The arithmetic of the aggregation is that of IEEE doubles, on counts that are integers.
  A positive double is a fraction whose denominator is a power of 2, kept here as the pair
  of its numerator and denominator. \<open>nearest_double a b\<close> is the double nearest to the
  quotient \<open>a / b\<close> of two integers, the result of a division or multiplication whose exact
  value is that quotient: the quotient is scaled by a power of 2 so that it lies between
  \<open>2\<^sup>5\<^sup>2\<close> and \<open>2\<^sup>5\<^sup>3\<close>, rounded to the nearest integer (to the even one when it is
  half way between two), and scaled back. \<open>bits\<close> is the number of binary digits. The
  smallest and the largest finite doubles are far from the values that occur and are not
  modelled.
\<close>

fun bits :: "nat \<Rightarrow> nat" where
  "bits n = (if n = 0 then 0 else bits (n div 2) + 1)"

declare bits.simps [simp del]

definition scale :: "nat \<Rightarrow> nat \<Rightarrow> int \<Rightarrow> nat \<times> nat" where
  "scale a b s = (if 0 \<le> s then (a * 2 ^ nat s, b) else (a, b * 2 ^ nat (- s)))"

definition round_half_even :: "nat \<Rightarrow> nat \<Rightarrow> nat" where
  "round_half_even a b =
     (let q = a div b; r = a mod b
      in if 2 * r < b then q else if b < 2 * r then q + 1 else if even q then q else q + 1)"

definition nearest_double :: "nat \<Rightarrow> nat \<Rightarrow> nat \<times> nat" where
  "nearest_double a b =
     (if a = 0 then (0, 1)
      else
        let k = int (bits a) - int (bits b);
            exponent = (if snd (scale a b (- k)) \<le> fst (scale a b (- k)) then k else k - 1);
            s = 52 - exponent;
            m = round_half_even (fst (scale a b s)) (snd (scale a b s))
        in scale m 1 (- s))"

text \<open>
  The sum of two doubles that hold integers which are not negative: exact up to
  \<open>2\<^sup>5\<^sup>3\<close>, rounded to the nearest double beyond.
\<close>

definition add_double :: "nat \<Rightarrow> nat \<Rightarrow> nat" where
  "add_double x y =
     (if x + y \<le> 2 ^ 53 then x + y else fst (nearest_double (x + y) 1))"

text \<open>
  The text that \<^verbatim>\<open>((count / total) * 100).toFixed(1)\<close> gives: \<^verbatim>\<open>NaN\<close> for 0 / 0,
  \<^verbatim>\<open>Infinity\<close> for another division by 0, and otherwise the decimal numeral with one
  digit after the point that is nearest to the exact value of the double, the larger one
  of two that are equally near. It is given here as a number of tenths. The double is the
  product by 100, rounded, of the quotient, rounded.
\<close>

datatype percent = NaN | Infinity | Tenths nat

definition toFixed1_percent :: "nat \<Rightarrow> nat \<Rightarrow> percent" where
  "toFixed1_percent c t =
     (if t = 0 then (if c = 0 then NaN else Infinity)
      else
        let quotient = nearest_double c t;
            product = nearest_double (fst quotient * 100) (snd quotient)
        in Tenths ((20 * fst product + snd product) div (2 * snd product)))"

text \<open>
  An entry of \<^verbatim>\<open>top_origins\<close> has the fields \<^verbatim>\<open>name\<close>, \<^verbatim>\<open>count\<close> and
  \<^verbatim>\<open>percent\<close>; the first two are \<open>origin_name\<close> and \<open>origin_count\<close> here. The field
  \<^verbatim>\<open>destination\<close> of an aggregate is \<open>agg_destination\<close>. \<^verbatim>\<open>top_origins\<close> is missing
  until the second loop sets it.
\<close>

record top_origin =
  origin_name :: string
  origin_count :: nat
  percent :: percent

record aggregate =
  agg_destination :: string
  total :: nat
  origins :: "nat object"
  top_origins :: "top_origin list option"

text \<open>\<^verbatim>\<open>flow.count || 0\<close>, and the names that the guards of the first loop let pass.\<close>

definition count_or_0 :: "flow \<Rightarrow> nat" where
  "count_or_0 fl = (case count fl of Undefined_count \<Rightarrow> 0 | Null_count \<Rightarrow> 0 | Count c \<Rightarrow> c)"

definition truthy_name :: "place option \<Rightarrow> string option" where
  "truthy_name pl =
     (case pl of
        None \<Rightarrow> None
      | Some p \<Rightarrow> (case name p of None \<Rightarrow> None | Some n \<Rightarrow> if n = [] then None else Some n))"

text \<open>
  \<^verbatim>\<open>if (!origins[originName]) origins[originName] = 0; origins[originName] += c\<close>, for a
  name that is not inherited. A property that holds 0 is falsy and is set to 0 again, in
  its place.
\<close>

definition add_origin :: "string \<Rightarrow> nat \<Rightarrow> nat object \<Rightarrow> nat object" where
  "add_origin originName c tbl =
     (case map_of tbl originName of
        None \<Rightarrow> obj_set originName (add_double 0 c) (obj_set originName 0 tbl)
      | Some v \<Rightarrow>
          if v = 0 then obj_set originName (add_double 0 c) (obj_set originName 0 tbl)
          else obj_set originName (add_double v c) tbl)"

text \<open>
  How a call ends: it returns a value, it throws, or its result depends on the engine and
  is not modelled further.
\<close>

datatype 'a outcome = Returns 'a | Throws js_error | Engine_dependent

text \<open>
  The body of the first \<^verbatim>\<open>forEach\<close> of \<^verbatim>\<open>aggregateFlowsByDestination\<close>.

  For a destination name that is inherited, \<^verbatim>\<open>aggregated[destName]\<close> is truthy, so no
  aggregate is created; the sum is assigned to a property of that built-in value, which
  is no part of the result; and \<^verbatim>\<open>aggregated[destName].origins\<close> is \<^verbatim>\<open>undefined\<close>, so that
  looking the origin up in it throws.

  For an origin name that is inherited the table of origins is not initialised. With the
  name \<^verbatim>\<open>__proto__\<close> the assignment of the sum, a string, calls the setter of
  \<^verbatim>\<open>Object.prototype\<close>, which ignores a string: the table stays as it is. With another
  inherited name the count becomes the text of a built-in function followed by digits:
  that text, and the order in which the second loop sorts with a count that is no number,
  depend on the engine.
\<close>

definition aggregate_flow :: "flow \<Rightarrow> aggregate object \<Rightarrow> aggregate object outcome" where
  "aggregate_flow fl aggregated =
     (case truthy_name (destination fl) of
        None \<Rightarrow> Returns aggregated
      | Some destName \<Rightarrow>
          if inherited destName
          then (case truthy_name (origin fl) of
                  None \<Rightarrow> Returns aggregated
                | Some originName \<Rightarrow> Throws TypeError)
          else
            let aggregated1 =
                  (if map_of aggregated destName = None
                   then obj_set destName
                          \<lparr>agg_destination = destName, total = 0, origins = [], top_origins = None\<rparr>
                          aggregated
                   else aggregated);
                aggregated2 =
                  obj_map destName (\<lambda>a. a\<lparr>total := add_double (total a) (count_or_0 fl)\<rparr>)
                    aggregated1
            in (case truthy_name (origin fl) of
                  None \<Rightarrow> Returns aggregated2
                | Some originName \<Rightarrow>
                    if originName = ''__proto__'' then Returns aggregated2
                    else if inherited originName then Engine_dependent
                    else Returns
                           (obj_map destName
                              (\<lambda>a. a\<lparr>origins := add_origin originName (count_or_0 fl) (origins a)\<rparr>)
                              aggregated2)))"

text \<open>The first loop: an exception ends it.\<close>

fun aggregate_flows :: "flow list \<Rightarrow> aggregate object \<Rightarrow> aggregate object outcome" where
  "aggregate_flows [] aggregated = Returns aggregated"
| "aggregate_flows (fl # fls) aggregated =
     (case aggregate_flow fl aggregated of
        Returns aggregated1 \<Rightarrow> aggregate_flows fls aggregated1
      | Throws e \<Rightarrow> Throws e
      | Engine_dependent \<Rightarrow> Engine_dependent)"

text \<open>
  The second loop, for one aggregate: the origins in the order of \<^verbatim>\<open>Object.keys\<close>, each
  with its count and percentage, sorted by \<^verbatim>\<open>b.count - a.count\<close> (the sort of an array is
  stable, and the sign of the difference of two doubles is that of the exact difference),
  then cut to the first five.
\<close>

definition sorted_origins :: "aggregate \<Rightarrow> top_origin list" where
  "sorted_origins a =
     sort_key (\<lambda>e. - int (origin_count e))
       (map (\<lambda>kv. \<lparr>origin_name = fst kv, origin_count = snd kv,
                    percent = toFixed1_percent (snd kv) (total a)\<rparr>)
          (object_entries (origins a)))"

definition set_top_origins :: "aggregate \<Rightarrow> aggregate" where
  "set_top_origins a = a\<lparr>top_origins := Some (take 5 (sorted_origins a))\<rparr>"

definition aggregateFlowsByDestination :: "flow list \<Rightarrow> aggregate object outcome" where
  "aggregateFlowsByDestination flows =
     (case aggregate_flows flows [] of
        Returns aggregated \<Rightarrow> Returns (map (\<lambda>kv. (fst kv, set_top_origins (snd kv))) aggregated)
      | Throws e \<Rightarrow> Throws e
      | Engine_dependent \<Rightarrow> Engine_dependent)"

text \<open>
  The words of the specification: the flows to a destination, the names of their origins
  in the order of the flows, a sequence without its repetitions (each element where it is
  first seen), and the sum of the counts of an origin.
\<close>

definition flows_to :: "string \<Rightarrow> flow list \<Rightarrow> flow list" where
  "flows_to d flows = filter (\<lambda>fl. truthy_name (destination fl) = Some d) flows"

definition origin_names :: "flow list \<Rightarrow> string list" where
  "origin_names flows = concat (map (\<lambda>fl. case truthy_name (origin fl) of None \<Rightarrow> [] | Some n \<Rightarrow> [n]) flows)"

fun first_seen :: "'a list \<Rightarrow> 'a list" where
  "first_seen [] = []"
| "first_seen (x # xs) = x # filter (\<lambda>y. y \<noteq> x) (first_seen xs)"

definition origin_total :: "flow list \<Rightarrow> string \<Rightarrow> nat" where
  "origin_total flows n =
     sum_list (map count_or_0 (filter (\<lambda>fl. truthy_name (origin fl) = Some n) flows))"

text \<open>
  The flows whose names are the object's own: neither the destination name nor the origin
  name that the guards let pass is inherited.
\<close>

definition own_names :: "flow \<Rightarrow> bool" where
  "own_names fl =
     ((case truthy_name (destination fl) of None \<Rightarrow> True | Some n \<Rightarrow> \<not> inherited n)
      \<and> (case truthy_name (origin fl) of None \<Rightarrow> True | Some n \<Rightarrow> \<not> inherited n))"

text \<open>
  Test data: the three records of the scenario, two flows of equal count to one
  destination, the second from an origin named \<^verbatim>\<open>1\<close>, a flow to a destination named
  \<^verbatim>\<open>constructor\<close>, and two flows whose counts add up to more than \<open>2\<^sup>5\<^sup>3\<close>.
\<close>

definition origin_b :: place where
  "origin_b = \<lparr>lat = Some 40, lon = Some (- 75), name = Some ''B''\<rparr>"

definition origin_1 :: place where
  "origin_1 = \<lparr>lat = Some 41, lon = Some (- 76), name = Some ''1''\<rparr>"

definition flow_b_mexico :: flow where
  "flow_b_mexico =
     \<lparr>origin = Some origin_b, destination = Some mexico, count = Count 10, scaled_count = Some 1\<rparr>"

definition flow_1_mexico :: flow where
  "flow_1_mexico =
     \<lparr>origin = Some origin_1, destination = Some mexico, count = Count 10, scaled_count = Some 1\<rparr>"

definition place_constructor :: place where
  "place_constructor = \<lparr>lat = Some 10, lon = Some 20, name = Some ''constructor''\<rparr>"

definition flow_ca_constructor :: flow where
  "flow_ca_constructor =
     \<lparr>origin = Some california, destination = Some place_constructor, count = Count 5,
      scaled_count = Some 1\<rparr>"

definition flow_ca_mexico_large :: flow where
  "flow_ca_mexico_large =
     \<lparr>origin = Some california, destination = Some mexico, count = Count 9007199254740992,
      scaled_count = Some 1\<rparr>"

definition flow_tx_mexico_1 :: flow where
  "flow_tx_mexico_1 =
     \<lparr>origin = Some texas, destination = Some mexico, count = Count 1, scaled_count = Some 1\<rparr>"

text \<open>
  The first loop for flows whose names are the object's own, and seen from one
  destination name: the aggregate of that name before and after one flow, the step of its
  origin table, and the aggregate after a list of flows.
\<close>

definition aggregate_own_flow :: "flow \<Rightarrow> aggregate object \<Rightarrow> aggregate object" where
  "aggregate_own_flow fl aggregated =
     (case aggregate_flow fl aggregated of
        Returns aggregated1 \<Rightarrow> aggregated1
      | Throws e \<Rightarrow> aggregated
      | Engine_dependent \<Rightarrow> aggregated)"

definition fresh_aggregate :: "string \<Rightarrow> aggregate" where
  "fresh_aggregate d = \<lparr>agg_destination = d, total = 0, origins = [], top_origins = None\<rparr>"

definition origin_step :: "flow \<Rightarrow> nat object \<Rightarrow> nat object" where
  "origin_step fl tbl =
     (case truthy_name (origin fl) of None \<Rightarrow> tbl | Some n \<Rightarrow> add_origin n (count_or_0 fl) tbl)"

definition entry_update :: "flow \<Rightarrow> aggregate \<Rightarrow> aggregate" where
  "entry_update fl a =
     a\<lparr>total := add_double (total a) (count_or_0 fl), origins := origin_step fl (origins a)\<rparr>"

definition entry_step :: "string \<Rightarrow> flow \<Rightarrow> aggregate option \<Rightarrow> aggregate option" where
  "entry_step d fl e =
     (if truthy_name (destination fl) = Some d
      then Some (entry_update fl (case e of None \<Rightarrow> fresh_aggregate d | Some a \<Rightarrow> a))
      else e)"

text \<open>Test data: the aggregates that the test inputs give for Mexico.\<close>

definition scenario_flows :: "flow list" where
  "scenario_flows = [flow_ca_mexico, flow_tx_mexico, flow_ca_guatemala]"

definition mexico_aggregate :: aggregate where
  "mexico_aggregate =
     \<lparr>agg_destination = ''Mexico'', total = 150, origins = [(''CA'', 100), (''TX'', 50)],
      top_origins = Some [\<lparr>origin_name = ''CA'', origin_count = 100, percent = Tenths 667\<rparr>,
                          \<lparr>origin_name = ''TX'', origin_count = 50, percent = Tenths 333\<rparr>]\<rparr>"

definition guatemala_aggregate :: aggregate where
  "guatemala_aggregate =
     \<lparr>agg_destination = ''Guatemala'', total = 30, origins = [(''CA'', 30)],
      top_origins = Some [\<lparr>origin_name = ''CA'', origin_count = 30, percent = Tenths 1000\<rparr>]\<rparr>"

definition index_aggregate :: aggregate where
  "index_aggregate =
     \<lparr>agg_destination = ''Mexico'', total = 20, origins = [(''B'', 10), (''1'', 10)],
      top_origins = Some [\<lparr>origin_name = ''1'', origin_count = 10, percent = Tenths 500\<rparr>,
                          \<lparr>origin_name = ''B'', origin_count = 10, percent = Tenths 500\<rparr>]\<rparr>"

text \<open>
  Test data: four flows of 50 to Mexico, from Texas, from an origin named \<^verbatim>\<open>7\<close>, from
  California and from an origin named \<^verbatim>\<open>1\<close>, in this order.
\<close>

definition origin_7 :: place where
  "origin_7 = \<lparr>lat = Some 42, lon = Some (- 77), name = Some ''7''\<rparr>"

definition flow_ca_mexico_50 :: flow where
  "flow_ca_mexico_50 =
     \<lparr>origin = Some california, destination = Some mexico, count = Count 50, scaled_count = Some 1\<rparr>"

definition flow_7_mexico_50 :: flow where
  "flow_7_mexico_50 =
     \<lparr>origin = Some origin_7, destination = Some mexico, count = Count 50, scaled_count = Some 1\<rparr>"

definition flow_1_mexico_50 :: flow where
  "flow_1_mexico_50 =
     \<lparr>origin = Some origin_1, destination = Some mexico, count = Count 50, scaled_count = Some 1\<rparr>"

definition mixed_flows :: "flow list" where
  "mixed_flows = [flow_tx_mexico, flow_7_mexico_50, flow_ca_mexico_50, flow_1_mexico_50]"

definition mixed_aggregate :: aggregate where
  "mixed_aggregate =
     \<lparr>agg_destination = ''Mexico'', total = 200,
      origins = [(''TX'', 50), (''7'', 50), (''CA'', 50), (''1'', 50)],
      top_origins = Some [\<lparr>origin_name = ''1'', origin_count = 50, percent = Tenths 250\<rparr>,
                          \<lparr>origin_name = ''7'', origin_count = 50, percent = Tenths 250\<rparr>,
                          \<lparr>origin_name = ''TX'', origin_count = 50, percent = Tenths 250\<rparr>,
                          \<lparr>origin_name = ''CA'', origin_count = 50, percent = Tenths 250\<rparr>]\<rparr>"

text \<open>Test data: the two flows whose counts add up to more than \<open>2\<^sup>5\<^sup>3\<close>.\<close>

definition large_flows :: "flow list" where
  "large_flows = [flow_ca_mexico_large, flow_tx_mexico_1]"

definition large_aggregate :: aggregate where
  "large_aggregate =
     \<lparr>agg_destination = ''Mexico'', total = 9007199254740992,
      origins = [(''CA'', 9007199254740992), (''TX'', 1)],
      top_origins =
        Some [\<lparr>origin_name = ''CA'', origin_count = 9007199254740992, percent = Tenths 1000\<rparr>,
              \<lparr>origin_name = ''TX'', origin_count = 1, percent = Tenths 0\<rparr>]\<rparr>"

section \<open>Properties\<close>

subsection \<open>The animated point stays at the final facility\<close>

lemma updateAnimatedPoint_completed:
  "journey_completed who point \<Longrightarrow> journey_completed who (updateAnimatedPoint deltaTime who point)"
  by (auto simp: journey_completed_def updateAnimatedPoint_def SEGMENT_ANIMATION_SPEED_def Let_def
      split: option.splits)

lemma updateAnimatedPoint_segment_bound:
  assumes "path pr = Some pth" and "currentSegment point \<le> int (length pth) - 2"
  shows "currentSegment (updateAnimatedPoint deltaTime (Some pr) point) \<le> int (length pth) - 2"
  using assms by (auto simp: updateAnimatedPoint_def Let_def)

lemma updateAnimatedPoints_at:
  "personIndex < 2 \<Longrightarrow>
     animatedPoints_at (updateAnimatedPoints deltaTime hs pts) personIndex =
       updateAnimatedPoint deltaTime (js_index hs personIndex) (animatedPoints_at pts personIndex)"
proof -
  assume "personIndex < 2"
  then consider "personIndex = 0" | "personIndex = 1" by linarith
  then show ?thesis
    by cases (simp_all add: animatedPoints_at_def updateAnimatedPoints_def)
qed

lemma updateAnimatedPoints_frames_at:
  "personIndex < 2 \<Longrightarrow>
     animatedPoints_at (updateAnimatedPoints_frames deltaTimes hs pts) personIndex =
       fold (\<lambda>deltaTime. updateAnimatedPoint deltaTime (js_index hs personIndex)) deltaTimes
         (animatedPoints_at pts personIndex)"
  unfolding updateAnimatedPoints_frames_def
  by (induction deltaTimes arbitrary: pts) (simp_all add: updateAnimatedPoints_at)

lemma fold_completed:
  "journey_completed who point \<Longrightarrow>
     journey_completed who (fold (\<lambda>deltaTime. updateAnimatedPoint deltaTime who) deltaTimes point)"
  by (induction deltaTimes arbitrary: point) (simp_all add: updateAnimatedPoint_completed)

lemma fold_segment_bound:
  "path pr = Some pth \<Longrightarrow> currentSegment point \<le> int (length pth) - 2 \<Longrightarrow>
     currentSegment (fold (\<lambda>deltaTime. updateAnimatedPoint deltaTime (Some pr)) deltaTimes point)
       \<le> int (length pth) - 2"
  by (induction deltaTimes arbitrary: point) (simp_all add: updateAnimatedPoint_segment_bound)

lemma updateAnimatedPoint_reaches_end:
  assumes "path pr = Some pth" and "2 \<le> length pth" and "visible point"
    and "currentSegment point = int (length pth) - 2"
    and "1 \<le> pt_progress point + SEGMENT_ANIMATION_SPEED"
  shows "journey_completed (Some pr) (updateAnimatedPoint deltaTime (Some pr) point)"
  using assms by (auto simp: journey_completed_def updateAnimatedPoint_def Let_def)

text \<open>
  Claim C10. A highlighted person's point never goes back to the start of the journey.
  Over any sequence of frames the segment index stays at most \<^verbatim>\<open>path.length - 2\<close>. The
  update that brings a visible point on the last segment to a progress of 1 or more leaves
  it on the last segment with progress 1. From then on every later update leaves the
  segment index at \<^verbatim>\<open>path.length - 2\<close> and the progress at 1.
\<close>

theorem animated_point_stays_at_final_facility:
  assumes "personIndex < 2" and "js_index hs personIndex = Some pr"
    and "path pr = Some pth" and "2 \<le> length pth"
    and "currentSegment (animatedPoints_at pts personIndex) \<le> int (length pth) - 2"
  shows "currentSegment (animatedPoints_at (updateAnimatedPoints_frames deltaTimes hs pts) personIndex)
           \<le> int (length pth) - 2
         \<and> (visible (animatedPoints_at pts personIndex)
              \<and> currentSegment (animatedPoints_at pts personIndex) = int (length pth) - 2
              \<and> 1 \<le> pt_progress (animatedPoints_at pts personIndex) + SEGMENT_ANIMATION_SPEED
            \<longrightarrow> journey_completed (Some pr)
                  (animatedPoints_at (updateAnimatedPoints deltaTime hs pts) personIndex))
         \<and> (journey_completed (Some pr) (animatedPoints_at pts personIndex)
            \<longrightarrow> currentSegment (animatedPoints_at (updateAnimatedPoints_frames deltaTimes hs pts) personIndex)
                    = int (length pth) - 2
                \<and> pt_progress (animatedPoints_at (updateAnimatedPoints_frames deltaTimes hs pts) personIndex)
                    = 1)"
proof (intro conjI impI)
  show "currentSegment (animatedPoints_at (updateAnimatedPoints_frames deltaTimes hs pts) personIndex)
          \<le> int (length pth) - 2"
    using assms by (simp add: updateAnimatedPoints_frames_at fold_segment_bound)
next
  assume "visible (animatedPoints_at pts personIndex)
      \<and> currentSegment (animatedPoints_at pts personIndex) = int (length pth) - 2
      \<and> 1 \<le> pt_progress (animatedPoints_at pts personIndex) + SEGMENT_ANIMATION_SPEED"
  then show "journey_completed (Some pr) (animatedPoints_at (updateAnimatedPoints deltaTime hs pts) personIndex)"
    using assms by (simp add: updateAnimatedPoints_at updateAnimatedPoint_reaches_end)
next
  assume completed: "journey_completed (Some pr) (animatedPoints_at pts personIndex)"
  have "journey_completed (Some pr)
          (animatedPoints_at (updateAnimatedPoints_frames deltaTimes hs pts) personIndex)"
    using assms(1,2) completed by (simp add: updateAnimatedPoints_frames_at fold_completed)
  then show "currentSegment (animatedPoints_at (updateAnimatedPoints_frames deltaTimes hs pts) personIndex)
               = int (length pth) - 2"
    and "pt_progress (animatedPoints_at (updateAnimatedPoints_frames deltaTimes hs pts) personIndex) = 1"
    using assms(3) by (simp_all add: journey_completed_def)
qed

theorem animated_point_stays_at_final_facility_witness:
  "currentSegment (animatedPoints_at (updateAnimatedPoints_frames [16, 17, 16] [three_stops, three_stops] points_at_end) 1) \<le> 1
    \<and> currentSegment (animatedPoints_at (updateAnimatedPoints_frames [16, 17, 16] [three_stops, three_stops] points_at_end) 1) = 1
    \<and> pt_progress (animatedPoints_at (updateAnimatedPoints_frames [16, 17, 16] [three_stops, three_stops] points_at_end) 1) = 1"
  using animated_point_stays_at_final_facility [of 1 "[three_stops, three_stops]" three_stops
      "[stop_a, stop_b, stop_c]" points_at_end "[16, 17, 16]" 16]
  by (simp add: js_index_def three_stops_def animatedPoints_at_def points_at_end_def point_at_end_def
      journey_completed_def)

subsection \<open>The destination filter\<close>

lemma filterParticle_idem: "filterParticle k (filterParticle k p) = filterParticle k p"
  by (cases k) (simp_all add: filterParticle_def Let_def)

text \<open>
  Claim C5. Applying the filter twice with the same key, whether \<^verbatim>\<open>undefined\<close>,
  \<^verbatim>\<open>null\<close> or a string, gives the state that applying it once gives: the same colour,
  opacity and every other field of every particle, and the same selected key.
\<close>

theorem filter_idempotent:
  "filterParticlesByDestination k (filterParticlesByDestination k st) = filterParticlesByDestination k st"
  by (simp add: filterParticlesByDestination_def filterParticle_idem)

text \<open>The particles of the test map are those that \<^verbatim>\<open>createParticles\<close> builds.\<close>

lemma running_map_particles_created:
  "createParticles grid_library half_random [flow_tx_mexico, flow_ca_guatemala] = Inr [particle_tx_mexico, particle_ca_guatemala]"
  by (simp add: createParticles_def createParticles_flow_def flow_tx_mexico_def flow_ca_guatemala_def
       texas_def mexico_def california_def guatemala_def place_coords_def grid_library_def
      grid_distance_def
      grid_greatCircle_def numParticles_def half_random_def particle_tx_mexico_def particle_ca_guatemala_def)

theorem filter_idempotent_witness:
  "filterParticlesByDestination (Name ''Mexico'') (filterParticlesByDestination (Name ''Mexico'') running_map)
     = filterParticlesByDestination (Name ''Mexico'') running_map"
  using filter_idempotent [of "Name ''Mexico''" running_map] by simp

lemma filterParticle_appearance:
  "appearance (filterParticle k p) =
     (case k of
        Undefined \<Rightarrow> (''red'', 1)
      | Null \<Rightarrow> (''gray'', 0.2)
      | Name key \<Rightarrow> if destinationName p = Some key then (''red'', 1) else (''gray'', 0.5))"
  by (cases k) (simp_all add: filterParticle_def appearance_def Let_def)

lemma filter_particles:
  "canvas st \<noteq> None \<Longrightarrow> ctx st \<Longrightarrow>
     particles (filterParticlesByDestination k st) = map (filterParticle k) (particles st)"
  by (auto simp: filterParticlesByDestination_def)

text \<open>
  Claim C4. Once the canvas and its context exist, the filter treats its three kinds of
  argument differently, on every particle list. With \<^verbatim>\<open>undefined\<close> every particle is red at
  opacity 1. With \<^verbatim>\<open>null\<close> every particle is gray at opacity 0.2. With a string, the
  particles whose destination name is that string are red at opacity 1 and all others are
  gray at opacity 0.5. On a list that is not empty the result for \<^verbatim>\<open>undefined\<close> differs from
  the result for \<^verbatim>\<open>null\<close>, and so does the result for any string; the result for a string
  differs from the result for \<^verbatim>\<open>undefined\<close> as soon as one particle goes elsewhere.
\<close>

theorem filter_three_way:
  assumes "canvas st \<noteq> None" and "ctx st"
  shows "map appearance (particles (filterParticlesByDestination Undefined st))
           = map (\<lambda>p. (''red'', 1)) (particles st)
       \<and> map appearance (particles (filterParticlesByDestination Null st))
           = map (\<lambda>p. (''gray'', 0.2)) (particles st)
       \<and> map appearance (particles (filterParticlesByDestination (Name key) st))
           = map (\<lambda>p. if destinationName p = Some key then (''red'', 1) else (''gray'', 0.5))
               (particles st)
       \<and> (particles st \<noteq> [] \<longrightarrow>
            map appearance (particles (filterParticlesByDestination Undefined st))
              \<noteq> map appearance (particles (filterParticlesByDestination Null st))
          \<and> map appearance (particles (filterParticlesByDestination (Name key) st))
              \<noteq> map appearance (particles (filterParticlesByDestination Null st)))
       \<and> ((\<exists>p \<in> set (particles st). destinationName p \<noteq> Some key) \<longrightarrow>
            map appearance (particles (filterParticlesByDestination (Name key) st))
              \<noteq> map appearance (particles (filterParticlesByDestination Undefined st)))"
proof -
  have u: "map appearance (particles (filterParticlesByDestination Undefined st))
             = map (\<lambda>p. (''red'', 1)) (particles st)"
    using assms by (simp add: filter_particles filterParticle_appearance comp_def)
  have n: "map appearance (particles (filterParticlesByDestination Null st))
             = map (\<lambda>p. (''gray'', 0.2)) (particles st)"
    using assms by (simp add: filter_particles filterParticle_appearance comp_def)
  have k: "map appearance (particles (filterParticlesByDestination (Name key) st))
             = map (\<lambda>p. if destinationName p = Some key then (''red'', 1) else (''gray'', 0.5))
                 (particles st)"
    using assms by (simp add: filter_particles filterParticle_appearance comp_def)
  have un: "particles st \<noteq> [] \<Longrightarrow>
      map (\<lambda>p. (''red'', 1::real)) (particles st) \<noteq> map (\<lambda>p. (''gray'', 0.2)) (particles st)"
    by (cases "particles st") simp_all
  have kn: "particles st \<noteq> [] \<Longrightarrow>
      map (\<lambda>p. if destinationName p = Some key then (''red'', 1::real) else (''gray'', 0.5))
        (particles st) \<noteq> map (\<lambda>p. (''gray'', 0.2)) (particles st)"
    by (cases "particles st") simp_all
  have ku: "\<exists>p \<in> set (particles st). destinationName p \<noteq> Some key \<Longrightarrow>
      map (\<lambda>p. if destinationName p = Some key then (''red'', 1::real) else (''gray'', 0.5))
        (particles st) \<noteq> map (\<lambda>p. (''red'', 1)) (particles st)"
    by auto
  show ?thesis
    using u n k un kn ku by simp
qed

theorem filter_three_way_witness:
  "map appearance (particles (filterParticlesByDestination Undefined running_map))
       = [(''red'', 1), (''red'', 1)]
   \<and> map appearance (particles (filterParticlesByDestination Null running_map))
       = [(''gray'', 0.2), (''gray'', 0.2)]
   \<and> map appearance (particles (filterParticlesByDestination (Name ''Mexico'') running_map))
       = [(''red'', 1), (''gray'', 0.5)]"
  using filter_three_way [of running_map "''Mexico''"]
  by (simp add: running_map_def particle_tx_mexico_def particle_ca_guatemala_def)

subsection \<open>The progress of a particle\<close>

lemma advance_fields [simp]:
  "startOffset (advance p) = startOffset p"
  "speed (advance p) = speed p"
  "line (advance p) = line p"
  "distance (advance p) = distance p"
  by (simp_all add: advance_def Let_def)

lemma advance_less_1: "startOffset p < 1 \<Longrightarrow> progress (advance p) < 1"
  by (simp add: advance_def Let_def)

lemma advance_wraps: "wraps p \<Longrightarrow> progress (advance p) = startOffset p"
  by (simp add: advance_def wraps_def Let_def)

lemma advance_no_wrap: "\<not> wraps p \<Longrightarrow> progress (advance p) = progress p + speed p"
  by (simp add: advance_def wraps_def Let_def)

lemma advance_ge:
  "0 \<le> speed p \<Longrightarrow> startOffset p \<le> progress p \<Longrightarrow> startOffset p \<le> progress (advance p)"
  by (simp add: advance_def Let_def)

lemma funpow_advance_fields [simp]:
  "startOffset ((advance ^^ n) p) = startOffset p"
  "speed ((advance ^^ n) p) = speed p"
  by (induction n) simp_all

lemma funpow_advance_less_1:
  "startOffset p < 1 \<Longrightarrow> 0 < n \<Longrightarrow> progress ((advance ^^ n) p) < 1"
  by (cases n) (simp_all add: advance_less_1)

lemma funpow_advance_ge:
  "0 \<le> speed p \<Longrightarrow> startOffset p \<le> progress p \<Longrightarrow> startOffset p \<le> progress ((advance ^^ n) p)"
proof (induction n)
  case 0
  then show ?case by simp
next
  case (Suc n)
  then show ?case using advance_ge [of "(advance ^^ n) p"] by simp
qed

lemma has_wrapped_ge:
  "has_wrapped n p \<Longrightarrow> 0 \<le> speed p \<Longrightarrow> startOffset p \<le> progress ((advance ^^ n) p)"
proof (induction n arbitrary: p)
  case 0
  then show ?case by simp
next
  case (Suc n)
  have step: "(advance ^^ Suc n) p = (advance ^^ n) (advance p)"
    by (simp add: funpow_swap1)
  show ?case
  proof (cases "wraps p")
    case True
    then have "startOffset (advance p) \<le> progress (advance p)"
      by (simp add: advance_wraps)
    then have "startOffset (advance p) \<le> progress ((advance ^^ n) (advance p))"
      using Suc.prems(2) by (intro funpow_advance_ge) simp_all
    then show ?thesis unfolding step by simp
  next
    case False
    then have "has_wrapped n (advance p)" using Suc.prems(1) by simp
    then have "startOffset (advance p) \<le> progress ((advance ^^ n) (advance p))"
      using Suc.prems(2) by (intro Suc.IH) simp_all
    then show ?thesis unfolding step by simp
  qed
qed

lemma has_wrapped_pos: "has_wrapped n p \<Longrightarrow> 0 < n"
  by (cases n) simp_all

lemma drawParticle_fst [simp]: "fst (drawParticle lib p) = advance p"
  by (simp add: drawParticle_def Let_def)

lemma drawDetentionParticle_fst [simp]: "fst (drawDetentionParticle lib p) = advance p"
  by (simp add: drawDetentionParticle_def Let_def)

lemma drawParticles_running:
  assumes "animation_running st"
  shows "drawParticles lib st =
           (st\<lparr>particles := map advance (particles st)\<rparr>,
            ClearRect 0 0 (fst (the (canvas st))) (snd (the (canvas st)))
              # concat (map (\<lambda>p. snd (drawParticle lib p)) (particles st)),
            True)"
  using assms
  by (auto simp: animation_running_def drawParticles_def Let_def comp_def split: option.splits)

lemma drawParticles_frames_running:
  "animation_running st \<Longrightarrow>
     fst (drawParticles_frames libs st) = st\<lparr>particles := map (advance ^^ length libs) (particles st)\<rparr>"
proof (induction libs arbitrary: st)
  case Nil
  then show ?case by simp
next
  case (Cons lib libs)
  let ?st1 = "st\<lparr>particles := map advance (particles st)\<rparr>"
  have r1: "animation_running ?st1"
    using Cons.prems by (simp add: animation_running_def)
  have "fst (drawParticles_frames (lib # libs) st) = fst (drawParticles_frames libs ?st1)"
    by (simp add: drawParticles_running [OF Cons.prems] split: prod.splits)
  also have "\<dots> = ?st1\<lparr>particles := map (advance ^^ length libs) (particles ?st1)\<rparr>"
    by (rule Cons.IH [OF r1])
  finally show ?case by (simp add: comp_def funpow_swap1)
qed

lemma drawAnimatedPoints_frame [simp]:
  "detentionParticles (fst (drawAnimatedPoints lib st)) = detentionParticles st"
  "detentionAnimationActive (fst (drawAnimatedPoints lib st)) = detentionAnimationActive st"
  "detentionCanvas (fst (drawAnimatedPoints lib st)) = detentionCanvas st"
  "detentionCtx (fst (drawAnimatedPoints lib st)) = detentionCtx st"
  "detentionMap (fst (drawAnimatedPoints lib st)) = detentionMap st"
  "stopBackgroundParticles (fst (drawAnimatedPoints lib st)) = stopBackgroundParticles st"
  "detentionHighlights (fst (drawAnimatedPoints lib st)) = detentionHighlights st"
  "lastFrameTime (fst (drawAnimatedPoints lib st)) = lastFrameTime st"
  by (auto simp: drawAnimatedPoints_def Let_def split: sum.splits prod.splits)

lemma drawDetentionParticles_unfold:
  assumes "detention_running st"
  shows "drawDetentionParticles lib currentTime st =
           (let st3 = st\<lparr>lastFrameTime := currentTime,
                          detentionParticles := map advance (detentionParticles st),
                          animatedPoints := updateAnimatedPoints (currentTime - lastFrameTime st)
                                              (detentionHighlights st) (animatedPoints st)\<rparr>;
                lib1 = (if detentionMap st then lib else lib\<lparr>map_project := (\<lambda>c. None)\<rparr>)
            in (fst (drawAnimatedPoints lib st3),
                ClearRect 0 0 (fst (the (detentionCanvas st))) (snd (the (detentionCanvas st)))
                  # concat (map (\<lambda>p. snd (drawDetentionParticle lib1 p)) (detentionParticles st))
                  @ fst (snd (drawAnimatedPoints lib st3)),
                (case snd (snd (drawAnimatedPoints lib st3)) of
                   None \<Rightarrow> Next_frame_requested
                 | Some e \<Rightarrow> Aborted e)))"
  using assms
  by (auto simp: detention_running_def drawDetentionParticles_def Let_def comp_def case_prod_beta
      split: option.splits)

lemma drawDetentionParticles_running:
  assumes "detention_running st"
  shows "detentionParticles (fst (drawDetentionParticles lib currentTime st))
           = map advance (detentionParticles st)"
    and "detention_running (fst (drawDetentionParticles lib currentTime st))"
  using assms
  by (simp_all add: drawDetentionParticles_unfold Let_def detention_running_def)

lemma drawDetentionParticles_frames_running:
  "detention_running st \<Longrightarrow>
     detentionParticles (fst (drawDetentionParticles_frames frames st))
       = map (advance ^^ length frames) (detentionParticles st)"
proof (induction frames arbitrary: st)
  case Nil
  then show ?case by simp
next
  case (Cons fr frames)
  obtain lib currentTime where fr: "fr = (lib, currentTime)" by (cases fr)
  let ?st1 = "fst (drawDetentionParticles lib currentTime st)"
  have r1: "detention_running ?st1"
    using Cons.prems by (rule drawDetentionParticles_running)
  have p1: "detentionParticles ?st1 = map advance (detentionParticles st)"
    using Cons.prems by (rule drawDetentionParticles_running)
  have "detentionParticles (fst (drawDetentionParticles_frames (fr # frames) st))
          = detentionParticles (fst (drawDetentionParticles_frames frames ?st1))"
    by (simp add: fr split: prod.splits)
  also have "\<dots> = map (advance ^^ length frames) (detentionParticles ?st1)"
    by (rule Cons.IH [OF r1])
  finally show ?case by (simp add: p1 comp_def funpow_swap1)
qed

text \<open>The two particles that \<^verbatim>\<open>createDetentionParticles\<close> builds for a flow of 100 transfers.\<close>

lemma detention_map_particles:
  "detentionParticles detention_map =
     [\<lparr>line = ((- 120, 36), (- 102, 23)), distance = 3441, progress = 0.999,
       speed = DETENTION_SPEED_FACTOR, startOffset = 0, flowIndex = 0, ptype = ''background''\<rparr>,
      \<lparr>line = ((- 120, 36), (- 102, 23)), distance = 3441, progress = 0.999,
       speed = DETENTION_SPEED_FACTOR, startOffset = 0.5, flowIndex = 0, ptype = ''background''\<rparr>]"
  by (simp add: detention_map_def createDetentionParticles_def createDetentionParticles_flow_def
      flow_ca_mexico_def california_def mexico_def place_coords_def grid_library_def
      grid_distance_def grid_greatCircle_def detention_numParticles_def detention_scaling_def
      MAX_PARTICLES_PER_ROUTE_def TRANSFERS_PER_PARTICLE_def upt_rec Let_def)

lemma funpow_advance_range:
  assumes "startOffset p < 1" and "0 \<le> speed p"
  shows "(n \<noteq> 0 \<longrightarrow> progress ((advance ^^ n) p) < 1)
       \<and> (has_wrapped n p \<longrightarrow>
            startOffset p \<le> progress ((advance ^^ n) p) \<and> progress ((advance ^^ n) p) < 1)"
proof (intro conjI impI)
  assume "n \<noteq> 0"
  then show "progress ((advance ^^ n) p) < 1"
    using assms(1) by (simp add: funpow_advance_less_1)
next
  assume "has_wrapped n p"
  then show "startOffset p \<le> progress ((advance ^^ n) p)"
    using assms(2) by (rule has_wrapped_ge)
next
  assume "has_wrapped n p"
  then have "0 < n" by (rule has_wrapped_pos)
  then show "progress ((advance ^^ n) p) < 1"
    using assms(1) by (simp add: funpow_advance_less_1)
qed

text \<open>
  Claim C2. Take a running map whose particles have a \<^verbatim>\<open>startOffset\<close> below 1 and a speed
  that is not negative, as every particle built by the code has. In one frame, an update
  that brings the progress to 1 or more sets it to \<^verbatim>\<open>startOffset\<close>, and the progress left
  after the wrap check is below 1. After any number of frames, a particle that has wrapped
  at least once has its progress in the interval from \<^verbatim>\<open>startOffset\<close> (included) to 1
  (excluded). The same holds for the background particles of the detention map.
\<close>

theorem progress_wraps_to_startOffset:
  assumes "animation_running st"
    and "\<forall>p \<in> set (particles st). startOffset p < 1 \<and> 0 \<le> speed p"
    and "detention_running dst"
    and "\<forall>p \<in> set (detentionParticles dst). startOffset p < 1 \<and> 0 \<le> speed p"
  shows "list_all2 (\<lambda>p p'. (wraps p \<longrightarrow> progress p' = startOffset p) \<and> progress p' < 1)
           (particles st) (particles (fst (drawParticles lib st)))
       \<and> list_all2 (\<lambda>p p'. (libs \<noteq> [] \<longrightarrow> progress p' < 1)
                         \<and> (has_wrapped (length libs) p \<longrightarrow>
                              startOffset p \<le> progress p' \<and> progress p' < 1))
           (particles st) (particles (fst (drawParticles_frames libs st)))
       \<and> list_all2 (\<lambda>p p'. (wraps p \<longrightarrow> progress p' = startOffset p) \<and> progress p' < 1)
           (detentionParticles dst)
           (detentionParticles (fst (drawDetentionParticles lib currentTime dst)))
       \<and> list_all2 (\<lambda>p p'. (frames \<noteq> [] \<longrightarrow> progress p' < 1)
                         \<and> (has_wrapped (length frames) p \<longrightarrow>
                              startOffset p \<le> progress p' \<and> progress p' < 1))
           (detentionParticles dst)
           (detentionParticles (fst (drawDetentionParticles_frames frames dst)))"
proof (intro conjI)
  show "list_all2 (\<lambda>p p'. (wraps p \<longrightarrow> progress p' = startOffset p) \<and> progress p' < 1)
          (particles st) (particles (fst (drawParticles lib st)))"
    using assms(2)
    by (simp add: drawParticles_running [OF assms(1)] list_all2_map2 list_all2_same
        advance_wraps advance_less_1)
  show "list_all2 (\<lambda>p p'. (libs \<noteq> [] \<longrightarrow> progress p' < 1)
                        \<and> (has_wrapped (length libs) p \<longrightarrow>
                             startOffset p \<le> progress p' \<and> progress p' < 1))
          (particles st) (particles (fst (drawParticles_frames libs st)))"
    using assms(2) funpow_advance_range [where n = "length libs"]
    by (auto simp: drawParticles_frames_running [OF assms(1)] list_all2_map2 list_all2_same)
  show "list_all2 (\<lambda>p p'. (wraps p \<longrightarrow> progress p' = startOffset p) \<and> progress p' < 1)
          (detentionParticles dst)
          (detentionParticles (fst (drawDetentionParticles lib currentTime dst)))"
    using assms(4)
    by (simp add: drawDetentionParticles_running [OF assms(3)] list_all2_map2 list_all2_same
        advance_wraps advance_less_1)
  show "list_all2 (\<lambda>p p'. (frames \<noteq> [] \<longrightarrow> progress p' < 1)
                        \<and> (has_wrapped (length frames) p \<longrightarrow>
                             startOffset p \<le> progress p' \<and> progress p' < 1))
          (detentionParticles dst)
          (detentionParticles (fst (drawDetentionParticles_frames frames dst)))"
    using assms(4) funpow_advance_range [where n = "length frames"]
    by (auto simp: drawDetentionParticles_frames_running [OF assms(3)] list_all2_map2
        list_all2_same)
qed

text \<open>Two frames of the test map: both particles wrap in the first one.\<close>

lemma late_map_frames:
  "map progress (particles (fst (drawParticles_frames [grid_library, grid_library] late_map)))
     = [0.5009, 0.9909]"
  by (simp add: late_map_def running_map_def drawParticles_def drawParticle_def advance_def
      particle_tx_mexico_def particle_ca_guatemala_def SPEED_FACTOR_def Let_def split: prod.splits)

theorem progress_wraps_to_startOffset_witness:
  "animation_running late_map \<and> detention_running detention_map
   \<and> list_all2 (\<lambda>p p'. progress p' = startOffset p \<and> progress p' < 1)
         (particles late_map) (particles (fst (drawParticles grid_library late_map)))
   \<and> list_all2 (\<lambda>p p'. startOffset p \<le> progress p' \<and> progress p' < 1)
         (particles late_map)
         (particles (fst (drawParticles_frames [grid_library, grid_library] late_map)))
   \<and> list_all2 (\<lambda>p p'. progress p' = startOffset p \<and> progress p' < 1)
         (detentionParticles detention_map)
         (detentionParticles (fst (drawDetentionParticles grid_library 16 detention_map)))
   \<and> list_all2 (\<lambda>p p'. startOffset p \<le> progress p' \<and> progress p' < 1)
         (detentionParticles detention_map)
         (detentionParticles
            (fst (drawDetentionParticles_frames [(grid_library, 16), (grid_library, 32)]
                    detention_map)))"
proof -
  have r: "animation_running late_map"
    by (simp add: animation_running_def late_map_def running_map_def)
  have d: "detention_running detention_map"
    by (simp add: detention_running_def detention_map_def)
  have ps: "\<forall>p \<in> set (particles late_map). startOffset p < 1 \<and> 0 \<le> speed p"
    by (simp add: late_map_def running_map_def particle_tx_mexico_def particle_ca_guatemala_def
        SPEED_FACTOR_def)
  have ds: "\<forall>p \<in> set (detentionParticles detention_map). startOffset p < 1 \<and> 0 \<le> speed p"
    by (simp add: detention_map_particles DETENTION_SPEED_FACTOR_def)
  have w: "\<forall>p \<in> set (particles late_map). wraps p \<and> has_wrapped (Suc (Suc 0)) p"
    by (simp add: late_map_def running_map_def particle_tx_mexico_def particle_ca_guatemala_def
        SPEED_FACTOR_def wraps_def)
  have dw: "\<forall>p \<in> set (detentionParticles detention_map). wraps p \<and> has_wrapped (Suc (Suc 0)) p"
    by (simp add: detention_map_particles DETENTION_SPEED_FACTOR_def wraps_def)
  show ?thesis
    using progress_wraps_to_startOffset [OF r ps d ds, of grid_library "[grid_library, grid_library]"
        16 "[(grid_library, 16), (grid_library, 32)]"] r d w dw
    by (auto simp: list_all2_conv_all_nth all_set_conv_all_nth)
qed

subsection \<open>Which particles a frame draws, and where\<close>

lemma fresh_progress:
  "progress p = 0 \<Longrightarrow> 0 \<le> speed p \<Longrightarrow> real n * speed p < 1 \<Longrightarrow>
     progress ((advance ^^ n) p) = real n * speed p"
proof (induction n)
  case 0
  then show ?case by simp
next
  case (Suc n)
  have less: "real n * speed p < 1"
    using Suc.prems(2,3) by (simp add: algebra_simps)
  have prev: "progress ((advance ^^ n) p) = real n * speed p"
    using Suc.IH [OF Suc.prems(1,2) less] .
  have "\<not> wraps ((advance ^^ n) p)"
    using Suc.prems(3) by (simp add: wraps_def prev algebra_simps)
  then have "progress (advance ((advance ^^ n) p)) = progress ((advance ^^ n) p) + speed p"
    by (simp add: advance_no_wrap)
  then show ?case by (simp add: prev algebra_simps)
qed

lemma particle_frames_nth:
  "particle_frames libs p =
     map (\<lambda>k. snd (drawParticle (libs ! k) ((advance ^^ k) p))) [0..<length libs]"
proof (induction libs arbitrary: p)
  case Nil
  then show ?case by simp
next
  case (Cons lib libs)
  show ?case
    by (simp add: Cons.IH map_upt_Suc funpow_swap1 del: upt_Suc)
qed

lemma drawParticle_waiting:
  "progress (advance p) < startOffset p \<Longrightarrow> snd (drawParticle lib p) = []"
  by (simp add: drawParticle_def Let_def)

lemma drawParticle_drawn:
  assumes "FillArc px py r style \<in> set (snd (drawParticle lib p))"
  shows "startOffset p \<le> progress (advance p) \<and> sample lib (advance p) = Some (px, py)
           \<and> r = PARTICLE_RADIUS"
proof (cases "startOffset p \<le> progress (advance p)")
  case True
  then show ?thesis
    using assms by (cases "sample lib (advance p)") (auto simp: drawParticle_def Let_def)
next
  case False
  then show ?thesis
    using assms by (simp add: drawParticle_def Let_def)
qed

lemma sample_Some:
  "sample lib p = Some px \<longleftrightarrow>
     (\<exists>coords. turf_along lib (line p)
                 (distance p * ((progress p - startOffset p) / (1 - startOffset p))) = Some coords
              \<and> map_project lib coords = Some px)"
  by (auto simp: sample_def Let_def split: option.splits)

lemma drawParticle_nonempty:
  "snd (drawParticle lib p) \<noteq> [] \<Longrightarrow> startOffset p \<le> progress (advance p)"
  by (auto simp: drawParticle_def Let_def split: if_splits)

lemma fresh_particle_waits:
  assumes "progress p = 0" and "speed p = SPEED_FACTOR" and "startOffset p = 0.99"
    and "length libs < 1100"
  shows "\<forall>cmds \<in> set (particle_frames libs p). cmds = []"
proof -
  {
    fix k assume k: "k < length libs"
    then have k1: "Suc k < 1100" using assms(4) by simp
    then have small: "real (Suc k) * speed p < 0.99"
      by (simp add: assms(2) SPEED_FACTOR_def)
    have "progress ((advance ^^ Suc k) p) = real (Suc k) * speed p"
      using small by (intro fresh_progress) (simp_all add: assms SPEED_FACTOR_def)
    then have "progress (advance ((advance ^^ k) p)) < startOffset ((advance ^^ k) p)"
      using small by (simp add: assms(3))
    then have "snd (drawParticle (libs ! k) ((advance ^^ k) p)) = []"
      by (rule drawParticle_waiting)
  }
  then show ?thesis by (auto simp: particle_frames_nth)
qed

text \<open>
  Claim C9. A particle is drawn in a frame only when its progress, after the update of
  that frame, is at least its \<^verbatim>\<open>startOffset\<close>. When it is drawn, the pixel of the circle is
  the projection of the position sampled on its line at the distance
  \<^verbatim>\<open>distance * (progress - startOffset) / (1 - startOffset)\<close>. A particle as
  \<^verbatim>\<open>createParticles\<close> builds it (progress 0, speed \<^verbatim>\<open>SPEED_FACTOR\<close>) with a
  \<^verbatim>\<open>startOffset\<close> of 0.99 is drawn in none of its first 1099 frames. After \<open>n\<close> of
  them its progress is \<open>n\<close> times \<^verbatim>\<open>SPEED_FACTOR\<close>, which is below 0.99: these frames are
  the first 99 percent of its first cycle from 0 to 1.
\<close>

theorem drawn_only_from_startOffset:
  "(snd (drawParticle lib p0) \<noteq> [] \<longrightarrow>
      startOffset (fst (drawParticle lib p0)) \<le> progress (fst (drawParticle lib p0)))
   \<and> (FillArc px py r style \<in> set (snd (drawParticle lib p0)) \<longrightarrow>
        (\<exists>coords. turf_along lib (line (fst (drawParticle lib p0)))
                     (distance (fst (drawParticle lib p0))
                        * ((progress (fst (drawParticle lib p0)) - startOffset (fst (drawParticle lib p0)))
                             / (1 - startOffset (fst (drawParticle lib p0))))) = Some coords
                   \<and> map_project lib coords = Some (px, py)))
   \<and> (progress p0 = 0 \<and> speed p0 = SPEED_FACTOR \<and> startOffset p0 = 0.99 \<and> length libs < 1100 \<longrightarrow>
        (\<forall>cmds \<in> set (particle_frames libs p0). cmds = [])
        \<and> progress ((advance ^^ length libs) p0) = real (length libs) * SPEED_FACTOR
        \<and> real (length libs) * SPEED_FACTOR < 0.99)"
proof (intro conjI impI)
  assume "snd (drawParticle lib p0) \<noteq> []"
  then show "startOffset (fst (drawParticle lib p0)) \<le> progress (fst (drawParticle lib p0))"
    using drawParticle_nonempty [of lib p0] by simp
next
  assume "FillArc px py r style \<in> set (snd (drawParticle lib p0))"
  then have "sample lib (advance p0) = Some (px, py)"
    using drawParticle_drawn by blast
  then show "\<exists>coords. turf_along lib (line (fst (drawParticle lib p0)))
                     (distance (fst (drawParticle lib p0))
                        * ((progress (fst (drawParticle lib p0)) - startOffset (fst (drawParticle lib p0)))
                             / (1 - startOffset (fst (drawParticle lib p0))))) = Some coords
                   \<and> map_project lib coords = Some (px, py)"
    by (simp add: sample_Some)
next
  assume fresh: "progress p0 = 0 \<and> speed p0 = SPEED_FACTOR \<and> startOffset p0 = 0.99 \<and> length libs < 1100"
  then show "\<forall>cmds \<in> set (particle_frames libs p0). cmds = []"
    using fresh_particle_waits by blast
  show small: "real (length libs) * SPEED_FACTOR < 0.99"
    using fresh by (simp add: SPEED_FACTOR_def)
  have sp: "speed p0 = SPEED_FACTOR" and p0: "progress p0 = 0"
    using fresh by simp_all
  have "real (length libs) * speed p0 < 1"
    using small unfolding sp by simp
  moreover have "0 \<le> speed p0"
    unfolding sp by (simp add: SPEED_FACTOR_def)
  ultimately have "progress ((advance ^^ length libs) p0) = real (length libs) * speed p0"
    using p0 by (intro fresh_progress)
  then show "progress ((advance ^^ length libs) p0) = real (length libs) * SPEED_FACTOR"
    unfolding sp .
qed

text \<open>The bound is tight: the frame after those, the 1100th, brings the progress to 0.99.\<close>

lemma fresh_particle_appears:
  assumes "progress p0 = 0" and "speed p0 = SPEED_FACTOR" and "startOffset p0 = 0.99"
  shows "progress ((advance ^^ 1100) p0) = startOffset p0"
proof -
  have "progress ((advance ^^ 1100) p0) = real 1100 * speed p0"
    using assms by (intro fresh_progress) (simp_all add: SPEED_FACTOR_def)
  then show ?thesis
    using assms by (simp add: SPEED_FACTOR_def)
qed

theorem drawn_only_from_startOffset_witness:
  "snd (drawParticle grid_library (particle_tx_mexico\<lparr>progress := 0.5991\<rparr>))
     = [FillArc 804 606 PARTICLE_RADIUS (Rgba 255 0 0 0.5)]
   \<and> progress (fst (drawParticle grid_library (particle_tx_mexico\<lparr>progress := 0.5991\<rparr>))) = 0.6
   \<and> startOffset (fst (drawParticle grid_library (particle_tx_mexico\<lparr>progress := 0.5991\<rparr>))) = 0.5
   \<and> line (fst (drawParticle grid_library (particle_tx_mexico\<lparr>progress := 0.5991\<rparr>)))
        = ((- 99, 31), (- 102, 23))
   \<and> distance (fst (drawParticle grid_library (particle_tx_mexico\<lparr>progress := 0.5991\<rparr>))) = 1221
   \<and> (\<exists>coords. turf_along grid_library
                  (line (fst (drawParticle grid_library (particle_tx_mexico\<lparr>progress := 0.5991\<rparr>))))
                  (distance (fst (drawParticle grid_library (particle_tx_mexico\<lparr>progress := 0.5991\<rparr>)))
                     * ((progress (fst (drawParticle grid_library (particle_tx_mexico\<lparr>progress := 0.5991\<rparr>)))
                           - startOffset (fst (drawParticle grid_library (particle_tx_mexico\<lparr>progress := 0.5991\<rparr>))))
                          / (1 - startOffset (fst (drawParticle grid_library (particle_tx_mexico\<lparr>progress := 0.5991\<rparr>))))))
                = Some coords
              \<and> map_project grid_library coords = Some (804, 606))
   \<and> progress particle_ca_guatemala = 0 \<and> speed particle_ca_guatemala = SPEED_FACTOR
   \<and> startOffset particle_ca_guatemala = 0.99
   \<and> length (particle_frames [grid_library, grid_library, grid_library] particle_ca_guatemala) = 3
   \<and> concat (particle_frames [grid_library, grid_library, grid_library] particle_ca_guatemala) = []"
proof -
  let ?p = "particle_tx_mexico\<lparr>progress := 0.5991\<rparr>"
  have drawn: "snd (drawParticle grid_library ?p) = [FillArc 804 606 PARTICLE_RADIUS (Rgba 255 0 0 0.5)]"
    by (simp add: drawParticle_def advance_def sample_def particle_tx_mexico_def Let_def
        SPEED_FACTOR_def grid_library_def grid_along_def grid_distance_def east_project_def)
  have after: "progress (fst (drawParticle grid_library ?p)) = 0.6
      \<and> startOffset (fst (drawParticle grid_library ?p)) = 0.5
      \<and> line (fst (drawParticle grid_library ?p)) = ((- 99, 31), (- 102, 23))
      \<and> distance (fst (drawParticle grid_library ?p)) = 1221"
    by (simp add: advance_def particle_tx_mexico_def Let_def SPEED_FACTOR_def)
  have fresh: "progress particle_ca_guatemala = 0 \<and> speed particle_ca_guatemala = SPEED_FACTOR
      \<and> startOffset particle_ca_guatemala = 0.99"
    by (simp add: particle_ca_guatemala_def)
  have three: "length [grid_library, grid_library, grid_library] < 1100"
    by simp
  have sampled: "\<exists>coords. turf_along grid_library (line (fst (drawParticle grid_library ?p)))
                     (distance (fst (drawParticle grid_library ?p))
                        * ((progress (fst (drawParticle grid_library ?p))
                              - startOffset (fst (drawParticle grid_library ?p)))
                             / (1 - startOffset (fst (drawParticle grid_library ?p))))) = Some coords
                   \<and> map_project grid_library coords = Some (804, 606)"
    using drawn_only_from_startOffset [of grid_library ?p 804 606 PARTICLE_RADIUS "Rgba 255 0 0 0.5"
        "[]"] drawn
    by simp
  have "\<forall>cmds \<in> set (particle_frames [grid_library, grid_library, grid_library] particle_ca_guatemala).
          cmds = []"
    using drawn_only_from_startOffset [of grid_library particle_ca_guatemala 0 0 0 "Css []"
        "[grid_library, grid_library, grid_library]"] fresh three
    by blast
  then have waits: "concat (particle_frames [grid_library, grid_library, grid_library]
                              particle_ca_guatemala) = []"
    by simp
  have "length (particle_frames [grid_library, grid_library, grid_library] particle_ca_guatemala) = 3"
    by simp
  then show ?thesis
    using drawn after fresh sampled waits by blast
qed

subsection \<open>A particle whose position cannot be drawn\<close>

lemma bad_particle_commands:
  assumes "sample lib (advance p) = None"
  shows "snd (drawParticle lib p) = []"
  using assms by (simp add: drawParticle_def Let_def)

lemma bad_detention_particle_commands:
  assumes "sample lib (advance p) = None"
  shows "snd (drawDetentionParticle lib p) = []"
  using assms by (simp add: drawDetentionParticle_def Let_def)

lemma drawParticle_visible:
  assumes "sample lib (advance p) = Some (px, py)" and "startOffset p \<le> progress (advance p)"
  shows "\<exists>style. snd (drawParticle lib p) = [FillArc px py PARTICLE_RADIUS style]"
  using assms by (simp add: drawParticle_def Let_def)

lemma drawDetentionParticle_visible:
  assumes "sample lib (advance p) = Some (px, py)" and "startOffset p \<le> progress (advance p)"
  shows "snd (drawDetentionParticle lib p)
           = [FillArc px py BACKGROUND_PARTICLE_RADIUS (Css BACKGROUND_PARTICLE_COLOR)]"
  using assms by (simp add: drawDetentionParticle_def Let_def)

text \<open>
  In a running frame of the removal map, let \<^verbatim>\<open>turf.along\<close> or \<^verbatim>\<open>map.project\<close> throw
  for one particle. Every particle of the list is still updated, that one included. The
  commands of the frame are those of the same frame without that particle, so only its
  drawing is missing. The frame ends with the request of the next frame. In the next frame
  the particle is tried again: if its position can be sampled and projected then, and its
  progress is at least its \<^verbatim>\<open>startOffset\<close>, its circle is drawn.
\<close>

lemma removal_particle_skipped:
  assumes "animation_running st" and "particles st = ps @ p # qs"
    and "sample lib (advance p) = None"
  shows "particles (fst (drawParticles lib st)) = map advance ps @ advance p # map advance qs
       \<and> fst (snd (drawParticles lib st)) = fst (snd (drawParticles lib (st\<lparr>particles := ps @ qs\<rparr>)))
       \<and> snd (snd (drawParticles lib st))
       \<and> (sample lib2 (advance (advance p)) = Some (px, py)
            \<and> startOffset p \<le> progress (advance (advance p)) \<longrightarrow>
          (\<exists>style. FillArc px py PARTICLE_RADIUS style
                     \<in> set (fst (snd (drawParticles lib2 (fst (drawParticles lib st)))))))"
proof -
  have r0: "animation_running (st\<lparr>particles := ps @ qs\<rparr>)"
    using assms(1) by (simp add: animation_running_def)
  have r1: "animation_running (fst (drawParticles lib st))"
    using assms(1) by (simp add: drawParticles_running animation_running_def)
  have a: "particles (fst (drawParticles lib st)) = map advance ps @ advance p # map advance qs"
    by (simp add: drawParticles_running [OF assms(1)] assms(2))
  have b: "fst (snd (drawParticles lib st))
             = fst (snd (drawParticles lib (st\<lparr>particles := ps @ qs\<rparr>)))"
    by (simp add: drawParticles_running [OF assms(1)] drawParticles_running [OF r0] assms(2)
        bad_particle_commands [OF assms(3)])
  have c: "snd (snd (drawParticles lib st))"
    by (simp add: drawParticles_running [OF assms(1)])
  have d: "\<exists>style. FillArc px py PARTICLE_RADIUS style
                     \<in> set (fst (snd (drawParticles lib2 (fst (drawParticles lib st)))))"
    if again: "sample lib2 (advance (advance p)) = Some (px, py)
          \<and> startOffset p \<le> progress (advance (advance p))"
  proof -
    obtain style where "snd (drawParticle lib2 (advance p)) = [FillArc px py PARTICLE_RADIUS style]"
      using drawParticle_visible [of lib2 "advance p" px py] again by auto
    then show ?thesis
      by (auto simp: drawParticles_running [OF r1] a)
  qed
  show ?thesis
    using a b c d by blast
qed

text \<open>
  The background loop of the detention map does the same for its particles: all are
  updated, and the commands and the end of the frame are those of the frame without the
  particle that throws. How the frame ends is decided after the loop, by the drawing of the
  highlighted points.
\<close>

lemma background_particle_skipped:
  assumes "detention_running dst" and "detentionMap dst"
    and "detentionParticles dst = dps @ dp # dqs"
    and "sample lib (advance dp) = None"
  shows "detentionParticles (fst (drawDetentionParticles lib currentTime dst))
           = map advance dps @ advance dp # map advance dqs
       \<and> snd (drawDetentionParticles lib currentTime dst)
           = snd (drawDetentionParticles lib currentTime (dst\<lparr>detentionParticles := dps @ dqs\<rparr>))
       \<and> (sample lib2 (advance (advance dp)) = Some (dx, dy)
            \<and> startOffset dp \<le> progress (advance (advance dp)) \<longrightarrow>
          FillArc dx dy BACKGROUND_PARTICLE_RADIUS (Css BACKGROUND_PARTICLE_COLOR)
            \<in> set (fst (snd (drawDetentionParticles lib2 nextTime
                               (fst (drawDetentionParticles lib currentTime dst))))))"
proof -
  let ?pts = "updateAnimatedPoints (currentTime - lastFrameTime dst)
                (detentionHighlights dst) (animatedPoints dst)"
  have d0: "detention_running (dst\<lparr>detentionParticles := dps @ dqs\<rparr>)"
    using assms(1) by (simp add: detention_running_def)
  have d1: "detention_running (fst (drawDetentionParticles lib currentTime dst))"
    using assms(1) by (rule drawDetentionParticles_running)
  have m1: "detentionMap (fst (drawDetentionParticles lib currentTime dst))"
    using assms(2) by (simp add: drawDetentionParticles_unfold [OF assms(1)] Let_def)
  have e: "detentionParticles (fst (drawDetentionParticles lib currentTime dst))
             = map advance dps @ advance dp # map advance dqs"
    by (simp add: drawDetentionParticles_running [OF assms(1)] assms(3))
  have same: "snd (drawAnimatedPoints lib
                (dst\<lparr>lastFrameTime := currentTime,
                      detentionParticles := map advance (detentionParticles dst),
                      animatedPoints := ?pts\<rparr>))
            = snd (drawAnimatedPoints lib
                (dst\<lparr>detentionParticles := dps @ dqs, lastFrameTime := currentTime,
                      detentionParticles := map advance (dps @ dqs),
                      animatedPoints := ?pts\<rparr>))"
    by (auto simp: drawAnimatedPoints_def Let_def split: sum.splits prod.splits)
  have f: "snd (drawDetentionParticles lib currentTime dst)
             = snd (drawDetentionParticles lib currentTime (dst\<lparr>detentionParticles := dps @ dqs\<rparr>))"
    using same
    by (simp add: drawDetentionParticles_unfold [OF assms(1)] drawDetentionParticles_unfold [OF d0]
        assms(2,3) bad_detention_particle_commands [OF assms(4)] Let_def)
  have h: "FillArc dx dy BACKGROUND_PARTICLE_RADIUS (Css BACKGROUND_PARTICLE_COLOR)
            \<in> set (fst (snd (drawDetentionParticles lib2 nextTime
                               (fst (drawDetentionParticles lib currentTime dst)))))"
    if again: "sample lib2 (advance (advance dp)) = Some (dx, dy)
          \<and> startOffset dp \<le> progress (advance (advance dp))"
  proof -
    have "snd (drawDetentionParticle lib2 (advance dp))
            = [FillArc dx dy BACKGROUND_PARTICLE_RADIUS (Css BACKGROUND_PARTICLE_COLOR)]"
      using drawDetentionParticle_visible [of lib2 "advance dp" dx dy] again by auto
    then show ?thesis
      by (simp add: drawDetentionParticles_unfold [OF d1] e m1 Let_def)
  qed
  show ?thesis
    using e f h by blast
qed

text \<open>While no highlighted point is visible, a running frame requests the next one.\<close>

lemma frame_without_highlighted_point:
  assumes "detention_running dst"
    and "\<not> visible (person1 (animatedPoints dst))" and "\<not> visible (person2 (animatedPoints dst))"
  shows "snd (snd (drawDetentionParticles lib currentTime dst)) = Next_frame_requested"
  using assms(2,3)
  by (simp add: drawDetentionParticles_unfold [OF assms(1)] Let_def drawAnimatedPoints_def
      drawAnimatedPoint_def updateAnimatedPoints_def updateAnimatedPoint_def)










subsection \<open>Leaving the last step\<close>

text \<open>
  Claim C8 as it is written fails on the removal map: leaving its last step downward marks
  the article as exiting, flies back to the default camera and fades the cards out, and
  shows no data sources overlay, which is the only end-of-section notification of the code.
\<close>

theorem removal_exit_has_no_notification:
  "triggered (handleStepExit full_page exit_last_down)
     = [AddClass ''#scrolly article'' ''exiting'', FlyTo (- 85, 20) 2.5 0 0 0.6,
        FadeOutSteps ''#scrolly article .step'']
   \<and> ShowDataSourcesOverlay \<notin> set (triggered (handleStepExit full_page exit_last_down))"
  by (simp add: triggered_def handleStepExit_def flyToDefault_def full_page_def exit_last_down_def)

text \<open>
  Claim C8, amended. Leaving the last step downward triggers the exit effects of the
  section. On the removal map (\<^verbatim>\<open>handleStepExit\<close>, step 4) these are exactly: the class
  \<^verbatim>\<open>exiting\<close> on the article at once, when the article exists; the flight back to the
  default camera after 100 ms, when the map exists; and the fading out of the cards after
  100 ms. There is no end-of-section notification among them. On the detention map (a step
  whose class has \<^verbatim>\<open>interactive-step\<close>) the function passed to \<^verbatim>\<open>onStepExit\<close> last
  does exactly one thing: it shows the data sources overlay after 500 ms, when
  \<^verbatim>\<open>window.showDataSourcesOverlay\<close> exists. Leaving a step upward, or leaving another
  step, triggers nothing: each of the three functions has no effect.
\<close>

theorem exit_effects_only_downward:
  "(index r = 4 \<and> direction r = Down \<longrightarrow>
      handleStepExit pg r =
        (if article_present pg then [(0, AddClass ''#scrolly article'' ''exiting'')] else [])
        @ (if map_present pg then [(100, FlyTo (- 85, 20) 2.5 0 0 0.6)] else [])
        @ [(100, FadeOutSteps ''#scrolly article .step'')]
      \<and> ShowDataSourcesOverlay \<notin> set (triggered (handleStepExit pg r)))
   \<and> (index r = 4 \<and> direction r = Down \<and> article_present pg \<and> map_present pg \<longrightarrow>
      handleStepExit pg r =
        [(0, AddClass ''#scrolly article'' ''exiting''), (100, FlyTo (- 85, 20) 2.5 0 0 0.6),
         (100, FadeOutSteps ''#scrolly article .step'')])
   \<and> (js_includes (className r) ''interactive-step'' \<and> direction r = Down \<longrightarrow>
      detention_onStepExit_second pg r =
        (if overlay_function_present pg then [(500, ShowDataSourcesOverlay)] else []))
   \<and> (js_includes (className r) ''interactive-step'' \<and> direction r = Down
        \<and> overlay_function_present pg \<longrightarrow>
      detention_onStepExit_second pg r = [(500, ShowDataSourcesOverlay)])
   \<and> (direction r = Up \<or> index r \<noteq> 4 \<longrightarrow> handleStepExit pg r = [])
   \<and> (direction r = Up \<or> \<not> js_includes (className r) ''interactive-step'' \<longrightarrow>
      detention_onStepExit_first pg r = [] \<and> detention_onStepExit_second pg r = [])"
proof -
  have removal: "handleStepExit pg r =
        (if article_present pg then [(0, AddClass ''#scrolly article'' ''exiting'')] else [])
        @ (if map_present pg then [(100, FlyTo (- 85, 20) 2.5 0 0 0.6)] else [])
        @ [(100, FadeOutSteps ''#scrolly article .step'')]"
    if "index r = 4 \<and> direction r = Down"
    using that by (simp add: handleStepExit_def flyToDefault_def)
  have quiet: "ShowDataSourcesOverlay \<notin> set (triggered (handleStepExit pg r))"
    by (auto simp: handleStepExit_def flyToDefault_def triggered_def)
  have detention: "detention_onStepExit_second pg r =
        (if overlay_function_present pg then [(500, ShowDataSourcesOverlay)] else [])"
    if "js_includes (className r) ''interactive-step'' \<and> direction r = Down"
    using that by (simp add: detention_onStepExit_second_def)
  have up1: "handleStepExit pg r = []" if "direction r = Up \<or> index r \<noteq> 4"
    using that by (auto simp: handleStepExit_def)
  have up2: "detention_onStepExit_first pg r = [] \<and> detention_onStepExit_second pg r = []"
    if "direction r = Up \<or> \<not> js_includes (className r) ''interactive-step''"
    using that by (auto simp: detention_onStepExit_first_def detention_onStepExit_second_def)
  have full: "handleStepExit pg r =
        [(0, AddClass ''#scrolly article'' ''exiting''), (100, FlyTo (- 85, 20) 2.5 0 0 0.6),
         (100, FadeOutSteps ''#scrolly article .step'')]"
    if "index r = 4 \<and> direction r = Down \<and> article_present pg \<and> map_present pg"
    using that by (simp add: handleStepExit_def flyToDefault_def)
  have shown: "detention_onStepExit_second pg r = [(500, ShowDataSourcesOverlay)]"
    if "js_includes (className r) ''interactive-step'' \<and> direction r = Down
          \<and> overlay_function_present pg"
    using that by (simp add: detention_onStepExit_second_def)
  show ?thesis
    using removal quiet full detention shown up1 up2 by blast
qed

theorem exit_effects_only_downward_witness:
  "index exit_last_down = 4 \<and> direction exit_last_down = Down
   \<and> article_present full_page \<and> map_present full_page
   \<and> js_includes (className exit_last_down) ''interactive-step'' \<and> overlay_function_present full_page
   \<and> direction exit_last_up = Up
   \<and> handleStepExit full_page exit_last_down =
        [(0, AddClass ''#scrolly article'' ''exiting''), (100, FlyTo (- 85, 20) 2.5 0 0 0.6),
         (100, FadeOutSteps ''#scrolly article .step'')]
   \<and> ShowDataSourcesOverlay \<notin> set (triggered (handleStepExit full_page exit_last_down))
   \<and> detention_onStepExit_second full_page exit_last_down = [(500, ShowDataSourcesOverlay)]
   \<and> handleStepExit full_page exit_last_up = []
   \<and> detention_onStepExit_first full_page exit_last_up = []
   \<and> detention_onStepExit_second full_page exit_last_up = []"
proof -
  have down: "index exit_last_down = 4 \<and> direction exit_last_down = Down
      \<and> article_present full_page \<and> map_present full_page
      \<and> js_includes (className exit_last_down) ''interactive-step'' \<and> overlay_function_present full_page"
    by (simp add: exit_last_down_def full_page_def)
  have up: "direction exit_last_up = Up"
    by (simp add: exit_last_up_def)
  have d: "handleStepExit full_page exit_last_down =
        [(0, AddClass ''#scrolly article'' ''exiting''), (100, FlyTo (- 85, 20) 2.5 0 0 0.6),
         (100, FadeOutSteps ''#scrolly article .step'')]
      \<and> ShowDataSourcesOverlay \<notin> set (triggered (handleStepExit full_page exit_last_down))
      \<and> detention_onStepExit_second full_page exit_last_down = [(500, ShowDataSourcesOverlay)]"
    using exit_effects_only_downward [of exit_last_down full_page] down by argo
  have u: "handleStepExit full_page exit_last_up = []
      \<and> detention_onStepExit_first full_page exit_last_up = []
      \<and> detention_onStepExit_second full_page exit_last_up = []"
    using exit_effects_only_downward [of exit_last_up full_page] up by argo
  show ?thesis
    using d u down up by argo
qed

subsection \<open>The particles of a flow\<close>

lemma createDetentionParticles_flow_index:
  "p \<in> set (createDetentionParticles_flow lib k fl) \<Longrightarrow> flowIndex p = k"
  by (auto simp: createDetentionParticles_flow_def Let_def split: option.splits if_splits)

lemma createParticles_flow_index:
  "createParticles_flow lib random r k fl = Inr (ps, r') \<Longrightarrow> p \<in> set ps \<Longrightarrow> flowIndex p = k"
  by (auto simp: createParticles_flow_def Let_def split: option.splits if_splits)

lemma filter_flowIndex_same:
  "(\<And>p. p \<in> set ps \<Longrightarrow> flowIndex p = k) \<Longrightarrow> filter (\<lambda>p. flowIndex p = k) ps = ps"
  by (induction ps) auto

lemma filter_flowIndex_other:
  "(\<And>p. p \<in> set ps \<Longrightarrow> flowIndex p = k) \<Longrightarrow> j \<noteq> k \<Longrightarrow> filter (\<lambda>p. flowIndex p = j) ps = []"
  by (induction ps) auto

lemma createDetentionParticles_from_filter:
  "filter (\<lambda>p. flowIndex p = j) (createDetentionParticles_from lib k fls) =
     (if k \<le> j \<and> j < k + length fls then createDetentionParticles_flow lib j (fls ! (j - k)) else [])"
proof (induction fls arbitrary: k)
  case Nil
  then show ?case by auto
next
  case (Cons fl fls)
  have own: "\<And>p. p \<in> set (createDetentionParticles_flow lib k fl) \<Longrightarrow> flowIndex p = k"
    by (rule createDetentionParticles_flow_index)
  show ?case
  proof (cases "j = k")
    case True
    have "filter (\<lambda>p. flowIndex p = j) (createDetentionParticles_from lib (Suc k) fls) = []"
      unfolding Cons.IH using True by simp
    then show ?thesis
      using True filter_flowIndex_same [OF own] by simp
  next
    case False
    have "filter (\<lambda>p. flowIndex p = j) (createDetentionParticles_flow lib k fl) = []"
      using filter_flowIndex_other [OF own] False by simp
    moreover have "k \<le> j \<and> j < k + length (fl # fls) \<longleftrightarrow> Suc k \<le> j \<and> j < Suc k + length fls"
      using False by auto
    moreover have "Suc k \<le> j \<Longrightarrow> (fl # fls) ! (j - k) = fls ! (j - Suc k)"
      by (simp add: Suc_diff_le)
    ultimately show ?thesis
      by (simp add: Cons.IH)
  qed
qed

lemma createParticles_from_index_range:
  "createParticles_from lib random r k fls = Inr ps \<Longrightarrow> p \<in> set ps \<Longrightarrow>
     k \<le> flowIndex p \<and> flowIndex p < k + length fls"
proof (induction fls arbitrary: r k ps)
  case Nil
  then show ?case by simp
next
  case (Cons fl fls)
  from Cons.prems(1) obtain qs r' rest where
    first: "createParticles_flow lib random r k fl = Inr (qs, r')"
    and others: "createParticles_from lib random r' (Suc k) fls = Inr rest"
    and ps: "ps = qs @ rest"
    by (auto split: sum.splits prod.splits)
  show ?case
  proof (cases "p \<in> set qs")
    case True
    then show ?thesis
      using createParticles_flow_index [OF first] by simp
  next
    case False
    then have "p \<in> set rest" using Cons.prems(2) ps by simp
    then show ?thesis
      using Cons.IH [OF others] by fastforce
  qed
qed

lemma createParticles_from_filter:
  "createParticles_from lib random r k fls = Inr ps \<Longrightarrow> k \<le> j \<Longrightarrow> j < k + length fls \<Longrightarrow>
     \<exists>r0 r1. createParticles_flow lib random r0 j (fls ! (j - k))
               = Inr (filter (\<lambda>p. flowIndex p = j) ps, r1)"
proof (induction fls arbitrary: r k ps)
  case Nil
  then show ?case by simp
next
  case (Cons fl fls)
  from Cons.prems(1) obtain qs r' rest where
    first: "createParticles_flow lib random r k fl = Inr (qs, r')"
    and others: "createParticles_from lib random r' (Suc k) fls = Inr rest"
    and ps: "ps = qs @ rest"
    by (auto split: sum.splits prod.splits)
  have own: "\<And>p. p \<in> set qs \<Longrightarrow> flowIndex p = k"
    using createParticles_flow_index [OF first] .
  have later: "\<And>p. p \<in> set rest \<Longrightarrow> flowIndex p \<noteq> k"
    using createParticles_from_index_range [OF others] by fastforce
  show ?case
  proof (cases "j = k")
    case True
    have "filter (\<lambda>p. flowIndex p = j) rest = []"
      using later True by (auto simp: filter_empty_conv)
    then have "filter (\<lambda>p. flowIndex p = j) ps = qs"
      using True filter_flowIndex_same [OF own] ps by simp
    then show ?thesis
      using first True by auto
  next
    case False
    then have range: "Suc k \<le> j" "j < Suc k + length fls"
      using Cons.prems(2,3) by simp_all
    have "filter (\<lambda>p. flowIndex p = j) qs = []"
      using filter_flowIndex_other [OF own] False by simp
    then have same: "filter (\<lambda>p. flowIndex p = j) ps = filter (\<lambda>p. flowIndex p = j) rest"
      using ps by simp
    have nth: "(fl # fls) ! (j - k) = fls ! (j - Suc k)"
      using range(1) by (simp add: Suc_diff_le)
    show ?thesis
      using Cons.IH [OF others range] unfolding same nth .
  qed
qed

lemma degenerate_no_detention_particles:
  "coincident fl \<or> closer_than lib 0.1 fl \<Longrightarrow> createDetentionParticles_flow lib k fl = []"
  by (auto simp: coincident_def closer_than_def endpoints_def createDetentionParticles_flow_def
      place_coords_def Let_def split: option.splits if_splits)

lemma degenerate_no_particles:
  "coincident fl \<or> closer_than lib 1 fl \<Longrightarrow>
     createParticles_flow lib random r k fl = Inr (qs, r1) \<Longrightarrow> qs = []"
  by (auto simp: coincident_def closer_than_def endpoints_def createParticles_flow_def
      place_coords_def Let_def split: option.splits if_splits)

text \<open>
  Claim C6. A flow whose origin and destination have the same coordinates, or whose ends are
  closer than the threshold of the construction (0.1 km on the detention map, 1 km on the
  removal map), gets no particle: no particle of the result carries its flow index.
\<close>

theorem degenerate_flow_has_no_particles:
  assumes "i < length flows"
  shows "(coincident (flows ! i) \<or> closer_than lib 0.1 (flows ! i) \<longrightarrow>
            filter (\<lambda>p. flowIndex p = i) (createDetentionParticles lib flows) = [])
       \<and> ((coincident (flows ! i) \<or> closer_than lib 1 (flows ! i))
            \<and> createParticles lib random flows = Inr ps \<longrightarrow>
            filter (\<lambda>p. flowIndex p = i) ps = [])"
proof (intro conjI impI)
  assume "coincident (flows ! i) \<or> closer_than lib 0.1 (flows ! i)"
  then show "filter (\<lambda>p. flowIndex p = i) (createDetentionParticles lib flows) = []"
    using assms
    by (simp add: createDetentionParticles_def createDetentionParticles_from_filter
        degenerate_no_detention_particles)
next
  assume a: "(coincident (flows ! i) \<or> closer_than lib 1 (flows ! i))
      \<and> createParticles lib random flows = Inr ps"
  then obtain r0 r1 where
    "createParticles_flow lib random r0 i (flows ! i) = Inr (filter (\<lambda>p. flowIndex p = i) ps, r1)"
    using createParticles_from_filter [of lib random 0 0 flows ps i] assms
    by (auto simp: createParticles_def)
  then show "filter (\<lambda>p. flowIndex p = i) ps = []"
    using a degenerate_no_particles by blast
qed

theorem degenerate_flow_has_no_particles_witness:
  "1 < length [flow_tx_mexico, flow_tx_tx, flow_tx_near]
   \<and> coincident ([flow_tx_mexico, flow_tx_tx, flow_tx_near] ! 1)
   \<and> 2 < length [flow_tx_mexico, flow_tx_tx, flow_tx_near]
   \<and> closer_than grid_library 0.1 ([flow_tx_mexico, flow_tx_tx, flow_tx_near] ! 2)
   \<and> closer_than grid_library 1 ([flow_tx_mexico, flow_tx_tx, flow_tx_near] ! 2)
   \<and> createParticles grid_library half_random [flow_tx_mexico, flow_tx_tx, flow_tx_near]
        = Inr [particle_tx_mexico]
   \<and> filter (\<lambda>p. flowIndex p = 1)
        (createDetentionParticles grid_library [flow_tx_mexico, flow_tx_tx, flow_tx_near]) = []
   \<and> filter (\<lambda>p. flowIndex p = 2)
        (createDetentionParticles grid_library [flow_tx_mexico, flow_tx_tx, flow_tx_near]) = []
   \<and> filter (\<lambda>p. flowIndex p = 1) [particle_tx_mexico] = []
   \<and> filter (\<lambda>p. flowIndex p = 2) [particle_tx_mexico] = []"
proof -
  let ?flows = "[flow_tx_mexico, flow_tx_tx, flow_tx_near]"
  have same: "coincident (?flows ! 1)"
    by (simp add: coincident_def flow_tx_tx_def)
  have near: "closer_than grid_library 0.1 (?flows ! 2)" "closer_than grid_library 1 (?flows ! 2)"
    by (simp_all add: closer_than_def endpoints_def flow_tx_near_def texas_def near_texas_def
        place_coords_def grid_library_def grid_distance_def)
  have built: "createParticles grid_library half_random ?flows = Inr [particle_tx_mexico]"
    by (simp add: createParticles_def createParticles_flow_def flow_tx_mexico_def flow_tx_tx_def
        flow_tx_near_def texas_def mexico_def near_texas_def place_coords_def grid_library_def
        grid_distance_def grid_greatCircle_def numParticles_def half_random_def
        particle_tx_mexico_def)
  have l1: "1 < length ?flows" and l2: "2 < length ?flows"
    by simp_all
  show ?thesis
    using degenerate_flow_has_no_particles [OF l1, of grid_library half_random "[particle_tx_mexico]"]
      degenerate_flow_has_no_particles [OF l2, of grid_library half_random "[particle_tx_mexico]"]
      same near built l1 l2
    by blast
qed

lemma detention_scaling_bounds:
  "1 \<le> detention_scaling c \<and> detention_scaling c \<le> MAX_PARTICLES_PER_ROUTE"
  by (simp add: detention_scaling_def MAX_PARTICLES_PER_ROUTE_def)

lemma detention_scaling_mono:
  "c \<le> c' \<Longrightarrow> detention_scaling c \<le> detention_scaling c'"
proof -
  assume "c \<le> c'"
  then have "real c / real_of_int TRANSFERS_PER_PARTICLE \<le> real c' / real_of_int TRANSFERS_PER_PARTICLE"
    by (simp add: TRANSFERS_PER_PARTICLE_def)
  then have "\<lceil>real c / real_of_int TRANSFERS_PER_PARTICLE\<rceil> \<le> \<lceil>real c' / real_of_int TRANSFERS_PER_PARTICLE\<rceil>"
    by (rule ceiling_mono)
  then show ?thesis
    unfolding detention_scaling_def by linarith
qed

lemma passes_guardsE:
  assumes "passes_guards lib eps fl"
  obtains org dst a b where "origin fl = Some org" and "destination fl = Some dst"
    and "place_coords org = Some a" and "place_coords dst = Some b"
    and "\<not> (snd a = snd b \<and> fst a = fst b)" and "\<not> turf_distance lib a b < eps"
  using assms
  by (auto simp: passes_guards_def endpoints_def prod_eq_iff split: option.splits)

lemma passing_flow_detention_particles:
  assumes "passes_guards lib 0.1 fl" and "count fl = Count c"
  shows "int (length (createDetentionParticles_flow lib k fl)) = detention_scaling c"
proof -
  from assms(1) obtain org dst a b where
    "origin fl = Some org" "destination fl = Some dst"
    "place_coords org = Some a" "place_coords dst = Some b"
    "\<not> (snd a = snd b \<and> fst a = fst b)" "\<not> turf_distance lib a b < 0.1"
    by (rule passes_guardsE)
  then show ?thesis
    using detention_scaling_bounds [of c] assms(2)
    by (simp add: createDetentionParticles_flow_def detention_numParticles_def Let_def)
qed

lemma passing_flow_particles:
  assumes "passes_guards lib 1 fl" and "createParticles_flow lib random r k fl = Inr (qs, r1)"
  shows "length qs = nat (numParticles fl)"
proof -
  from assms(1) obtain org dst a b where
    "origin fl = Some org" "destination fl = Some dst"
    "place_coords org = Some a" "place_coords dst = Some b"
    "\<not> (snd a = snd b \<and> fst a = fst b)" "\<not> turf_distance lib a b < 1"
    by (rule passes_guardsE)
  then show ?thesis
    using assms(2) by (auto simp: createParticles_flow_def Let_def)
qed

lemma numParticles_positive:
  "(\<forall>v. scaled_count fl = Some v \<longrightarrow> 0 \<le> v) \<Longrightarrow> 1 \<le> numParticles fl"
  by (cases "scaled_count fl") (auto simp: numParticles_def)

text \<open>
  Claim C1, amended. On the detention map a flow that passes the guards and has a count
  gets \<^verbatim>\<open>min(MAX_PARTICLES_PER_ROUTE, max(1, ceil(count / 50)))\<close> particles: at least 1, at
  most \<^verbatim>\<open>MAX_PARTICLES_PER_ROUTE\<close>, and not fewer for a larger count. On the removal map a
  flow that passes the guards gets as many particles as \<^verbatim>\<open>scaled_count || 1\<close> says, which
  is at least 1 when \<^verbatim>\<open>scaled_count\<close> is missing or not negative; the code puts no upper
  bound on that number and does not read the count.
\<close>

theorem particles_per_flow:
  assumes "i < length flows"
  shows "(passes_guards lib 0.1 (flows ! i) \<and> count (flows ! i) = Count c \<longrightarrow>
            int (length (filter (\<lambda>p. flowIndex p = i) (createDetentionParticles lib flows)))
              = detention_scaling c)
       \<and> 1 \<le> detention_scaling c \<and> detention_scaling c \<le> MAX_PARTICLES_PER_ROUTE
       \<and> (c \<le> c' \<longrightarrow> detention_scaling c \<le> detention_scaling c')
       \<and> (passes_guards lib 1 (flows ! i) \<and> createParticles lib random flows = Inr ps \<longrightarrow>
            length (filter (\<lambda>p. flowIndex p = i) ps) = nat (numParticles (flows ! i))
            \<and> ((\<forall>v. scaled_count (flows ! i) = Some v \<longrightarrow> 0 \<le> v) \<longrightarrow>
                  1 \<le> length (filter (\<lambda>p. flowIndex p = i) ps)))"
proof (intro conjI impI)
  assume "passes_guards lib 0.1 (flows ! i) \<and> count (flows ! i) = Count c"
  then show "int (length (filter (\<lambda>p. flowIndex p = i) (createDetentionParticles lib flows)))
               = detention_scaling c"
    using assms
    by (simp add: createDetentionParticles_def createDetentionParticles_from_filter
        passing_flow_detention_particles)
next
  show "1 \<le> detention_scaling c" "detention_scaling c \<le> MAX_PARTICLES_PER_ROUTE"
    using detention_scaling_bounds by simp_all
next
  assume "c \<le> c'"
  then show "detention_scaling c \<le> detention_scaling c'"
    by (rule detention_scaling_mono)
next
  assume a: "passes_guards lib 1 (flows ! i) \<and> createParticles lib random flows = Inr ps"
  then obtain r0 r1 where
    "createParticles_flow lib random r0 i (flows ! i) = Inr (filter (\<lambda>p. flowIndex p = i) ps, r1)"
    using createParticles_from_filter [of lib random 0 0 flows ps i] assms
    by (auto simp: createParticles_def)
  then show n: "length (filter (\<lambda>p. flowIndex p = i) ps) = nat (numParticles (flows ! i))"
    using a passing_flow_particles by blast
  assume "\<forall>v. scaled_count (flows ! i) = Some v \<longrightarrow> 0 \<le> v"
  then have "1 \<le> numParticles (flows ! i)"
    by (rule numParticles_positive)
  then show "1 \<le> length (filter (\<lambda>p. flowIndex p = i) ps)"
    unfolding n by simp
qed

text \<open>
  Claim C1 as it is written fails on the removal map: a flow of one removal whose
  \<^verbatim>\<open>scaled_count\<close> is 16 gets 16 particles, more than \<^verbatim>\<open>MAX_PARTICLES_PER_ROUTE\<close>.
\<close>

theorem scaled_count_exceeds_maximum:
  "map_sum id length (createParticles grid_library half_random [flow_scaled_16]) = Inr 16
   \<and> MAX_PARTICLES_PER_ROUTE < 16"
  by (simp add: createParticles_def createParticles_flow_def flow_scaled_16_def texas_def
      mexico_def place_coords_def grid_library_def grid_distance_def numParticles_def
      MAX_PARTICLES_PER_ROUTE_def Let_def)

theorem particles_per_flow_witness:
  "0 < length [flow_ca_mexico] \<and> passes_guards grid_library 0.1 ([flow_ca_mexico] ! 0)
   \<and> count ([flow_ca_mexico] ! 0) = Count 100
   \<and> int (length (filter (\<lambda>p. flowIndex p = 0) (createDetentionParticles grid_library [flow_ca_mexico])))
        = detention_scaling 100
   \<and> detention_scaling 100 = 2 \<and> detention_scaling 100 \<le> MAX_PARTICLES_PER_ROUTE
   \<and> (100::nat) \<le> 2000 \<and> detention_scaling 100 \<le> detention_scaling 2000
   \<and> detention_scaling 2000 = MAX_PARTICLES_PER_ROUTE
   \<and> 1 < length [flow_tx_mexico, flow_ca_guatemala]
   \<and> passes_guards grid_library 1 ([flow_tx_mexico, flow_ca_guatemala] ! 1)
   \<and> createParticles grid_library half_random [flow_tx_mexico, flow_ca_guatemala]
        = Inr [particle_tx_mexico, particle_ca_guatemala]
   \<and> length (filter (\<lambda>p. flowIndex p = 1) [particle_tx_mexico, particle_ca_guatemala])
        = nat (numParticles ([flow_tx_mexico, flow_ca_guatemala] ! 1))
   \<and> 1 \<le> length (filter (\<lambda>p. flowIndex p = 1) [particle_tx_mexico, particle_ca_guatemala])"
proof -
  have l0: "0 < length [flow_ca_mexico]" and l1: "1 < length [flow_tx_mexico, flow_ca_guatemala]"
    by simp_all
  have g0: "passes_guards grid_library 0.1 ([flow_ca_mexico] ! 0)"
    by (simp add: passes_guards_def endpoints_def flow_ca_mexico_def california_def mexico_def
        place_coords_def grid_library_def grid_distance_def)
  have c0: "count ([flow_ca_mexico] ! 0) = Count 100"
    by (simp add: flow_ca_mexico_def)
  have g1: "passes_guards grid_library 1 ([flow_tx_mexico, flow_ca_guatemala] ! 1)"
    by (simp add: passes_guards_def endpoints_def flow_ca_guatemala_def california_def
        guatemala_def place_coords_def grid_library_def grid_distance_def)
  have s1: "\<forall>v. scaled_count ([flow_tx_mexico, flow_ca_guatemala] ! 1) = Some v \<longrightarrow> 0 \<le> v"
    by (simp add: flow_ca_guatemala_def)
  have v: "detention_scaling 100 = 2" "detention_scaling 2000 = MAX_PARTICLES_PER_ROUTE"
    "(100::nat) \<le> 2000"
    by (simp_all add: detention_scaling_def MAX_PARTICLES_PER_ROUTE_def TRANSFERS_PER_PARTICLE_def)
  show ?thesis
    using particles_per_flow [OF l0, of grid_library 100 2000 half_random "[]"]
      particles_per_flow [OF l1, of grid_library 0 0 half_random
        "[particle_tx_mexico, particle_ca_guatemala]"]
      l0 l1 g0 c0 g1 s1 v running_map_particles_created
    by blast
qed

text \<open>
  Every particle that the code builds has a \<^verbatim>\<open>startOffset\<close> from 0 (included) to 1
  (excluded) and a positive speed; \<^verbatim>\<open>Math.random\<close> returns values in that interval.
\<close>

lemma detention_numParticles_positive: "detention_numParticles fl = Some n \<Longrightarrow> 1 \<le> n"
  using detention_scaling_bounds
  by (auto simp: detention_numParticles_def split: count_field.splits)

lemma createDetentionParticles_flow_member:
  assumes "p \<in> set (createDetentionParticles_flow lib k fl)"
  shows "\<exists>n j. detention_numParticles fl = Some n \<and> j < nat n
           \<and> progress p = real j / real_of_int n
           \<and> startOffset p = real j / real_of_int n
           \<and> speed p = DETENTION_SPEED_FACTOR"
proof (cases "detention_numParticles fl")
  case None
  then show ?thesis
    using assms
    by (simp add: createDetentionParticles_flow_def Let_def split: option.splits if_splits)
next
  case (Some n)
  then have "p \<in> (\<lambda>j. \<lparr>line = line p, distance = distance p,
                         progress = real j / real_of_int n,
                         speed = DETENTION_SPEED_FACTOR,
                         startOffset = real j / real_of_int n,
                         flowIndex = k, ptype = ''background''\<rparr>) ` {0..<nat n}"
    using assms
    by (auto simp: createDetentionParticles_flow_def Let_def split: option.splits if_splits)
  then obtain j where "j < nat n"
    and "p = \<lparr>line = line p, distance = distance p,
              progress = real j / real_of_int n,
              speed = DETENTION_SPEED_FACTOR,
              startOffset = real j / real_of_int n,
              flowIndex = k, ptype = ''background''\<rparr>"
    by auto
  then have "j < nat n
      \<and> progress p = real j / real_of_int n
      \<and> startOffset p = real j / real_of_int n
      \<and> speed p = DETENTION_SPEED_FACTOR"
    by (metis particle.select_convs(3,4,5))
  then show ?thesis using Some by blast
qed

lemma createDetentionParticles_flow_shape:
  assumes "p \<in> set (createDetentionParticles_flow lib k fl)"
  shows "progress p = startOffset p \<and> speed p = DETENTION_SPEED_FACTOR
           \<and> 0 \<le> startOffset p \<and> startOffset p < 1"
proof -
  from createDetentionParticles_flow_member [OF assms]
  obtain n j where n: "detention_numParticles fl = Some n" and j: "j < nat n"
    and p: "progress p = real j / real_of_int n"
      "startOffset p = real j / real_of_int n"
      "speed p = DETENTION_SPEED_FACTOR"
    by blast
  have pos: "0 < real_of_int n"
    using detention_numParticles_positive [OF n] by simp
  have "real j < real_of_int n"
    using j by linarith
  then show ?thesis
    using p pos by simp
qed

lemma createDetentionParticles_from_member:
  "p \<in> set (createDetentionParticles_from lib k fls) \<Longrightarrow>
     \<exists>j fl. p \<in> set (createDetentionParticles_flow lib j fl)"
  by (induction fls arbitrary: k) auto

lemma createDetentionParticles_shape:
  "p \<in> set (createDetentionParticles lib flows) \<Longrightarrow>
     progress p = startOffset p \<and> speed p = DETENTION_SPEED_FACTOR
       \<and> 0 \<le> startOffset p \<and> startOffset p < 1"
  unfolding createDetentionParticles_def
  using createDetentionParticles_from_member createDetentionParticles_flow_shape by blast

lemma createParticles_flow_shape:
  assumes "createParticles_flow lib random r k fl = Inr (ps, r')" and "p \<in> set ps"
  shows "progress p = 0 \<and> speed p = SPEED_FACTOR \<and> startOffset p \<in> range random
           \<and> \<not> filtered p \<and> opacity p = 1 \<and> color p = ''red''"
  using assms by (auto simp: createParticles_flow_def Let_def split: option.splits if_splits)

lemma createParticles_from_member:
  "createParticles_from lib random r k fls = Inr ps \<Longrightarrow> p \<in> set ps \<Longrightarrow>
     \<exists>r0 j fl qs r1. createParticles_flow lib random r0 j fl = Inr (qs, r1) \<and> p \<in> set qs"
proof (induction fls arbitrary: r k ps)
  case Nil
  then show ?case by simp
next
  case (Cons fl fls)
  from Cons.prems(1) obtain qs r' rest where
    first: "createParticles_flow lib random r k fl = Inr (qs, r')"
    and others: "createParticles_from lib random r' (Suc k) fls = Inr rest"
    and ps: "ps = qs @ rest"
    by (auto split: sum.splits prod.splits)
  show ?case
  proof (cases "p \<in> set qs")
    case True
    then show ?thesis using first by blast
  next
    case False
    then have "p \<in> set rest" using Cons.prems(2) ps by simp
    then show ?thesis using Cons.IH [OF others] by blast
  qed
qed

lemma createParticles_shape:
  assumes "createParticles lib random flows = Inr ps" and "p \<in> set ps"
    and "\<And>i. 0 \<le> random i \<and> random i < 1"
  shows "progress p = 0 \<and> speed p = SPEED_FACTOR \<and> 0 \<le> startOffset p \<and> startOffset p < 1
           \<and> appearance p = (''red'', 1)"
proof -
  obtain r0 j fl qs r1 where "createParticles_flow lib random r0 j fl = Inr (qs, r1)" "p \<in> set qs"
    using createParticles_from_member assms(1,2) unfolding createParticles_def by blast
  then show ?thesis
    using createParticles_flow_shape [of lib random r0 j fl qs r1 p] assms(3)
    by (auto simp: appearance_def)
qed

subsection \<open>The aggregation by destination\<close>

text \<open>Sums up to \<open>2\<^sup>5\<^sup>3\<close> are exact.\<close>

lemma add_double_exact: "x + y \<le> 2 ^ 53 \<Longrightarrow> add_double x y = x + y"
  by (simp add: add_double_def)

lemma map_of_obj_set: "map_of (obj_set k v obj) k' = (if k' = k then Some v else map_of obj k')"
  by (induction obj) auto

lemma keys_obj_set_old: "k \<in> fst ` set obj \<Longrightarrow> map fst (obj_set k v obj) = map fst obj"
  by (induction obj) force+

lemma keys_obj_set_new: "k \<notin> fst ` set obj \<Longrightarrow> map fst (obj_set k v obj) = map fst obj @ [k]"
  by (induction obj) auto

lemma keys_obj_set:
  "map fst (obj_set k v obj) = (if k \<in> fst ` set obj then map fst obj else map fst obj @ [k])"
  by (simp add: keys_obj_set_old keys_obj_set_new)

lemma map_of_obj_map:
  "map_of (obj_map k f obj) k' = (if k' = k then map_option f (map_of obj k) else map_of obj k')"
  by (induction obj) (auto simp: obj_map_def)

lemma keys_obj_map: "map fst (obj_map k f obj) = map fst obj"
  by (induction obj) (auto simp: obj_map_def)

text \<open>
  For flows whose names are not inherited the first loop returns, and what it returns is
  the fold of \<open>aggregate_own_flow\<close>.
\<close>

lemma inherited_proto: "inherited ''__proto__''"
  by (simp add: inherited_def object_prototype_names_def)

lemma aggregate_flow_own:
  assumes "own_names fl"
  shows "aggregate_flow fl aggregated = Returns (aggregate_own_flow fl aggregated)"
proof -
  have "\<exists>aggregated1. aggregate_flow fl aggregated = Returns aggregated1"
    using assms inherited_proto
    by (auto simp: own_names_def aggregate_flow_def Let_def split: option.splits)
  then show ?thesis
    by (auto simp: aggregate_own_flow_def)
qed

lemma aggregate_flows_own:
  "list_all own_names flows \<Longrightarrow>
     aggregate_flows flows aggregated = Returns (fold aggregate_own_flow flows aggregated)"
  by (induction flows arbitrary: aggregated) (simp_all add: aggregate_flow_own)

lemma map_of_aggregate_own_flow:
  assumes "own_names fl"
  shows "map_of (aggregate_own_flow fl aggregated) d = entry_step d fl (map_of aggregated d)"
proof (cases "truthy_name (destination fl)")
  case None
  then show ?thesis by (simp add: aggregate_own_flow_def aggregate_flow_def entry_step_def)
next
  case (Some destName)
  then have own: "\<not> inherited destName"
    using assms by (simp add: own_names_def)
  have org: "truthy_name (origin fl) = Some n \<Longrightarrow> \<not> inherited n \<and> n \<noteq> ''__proto__''" for n
    using assms inherited_proto by (auto simp: own_names_def)
  show ?thesis
  proof (cases "d = destName")
    case False
    then show ?thesis
      using Some own org
      by (cases "truthy_name (origin fl)")
        (auto simp: aggregate_own_flow_def aggregate_flow_def entry_step_def Let_def
          map_of_obj_map map_of_obj_set)
  next
    case True
    show ?thesis
    proof (cases "map_of aggregated destName")
      case None
      then show ?thesis
        using Some True own org
        by (cases "truthy_name (origin fl)")
          (simp_all add: aggregate_own_flow_def aggregate_flow_def entry_step_def Let_def
            map_of_obj_map map_of_obj_set entry_update_def origin_step_def fresh_aggregate_def)
    next
      case (Some a)
      then show ?thesis
        using \<open>truthy_name (destination fl) = Some destName\<close> True own org
        by (cases "truthy_name (origin fl)")
          (simp_all add: aggregate_own_flow_def aggregate_flow_def entry_step_def Let_def
            map_of_obj_map map_of_obj_set entry_update_def origin_step_def)
    qed
  qed
qed

lemma map_of_fold_aggregate_own_flow:
  "list_all own_names flows \<Longrightarrow>
     map_of (fold aggregate_own_flow flows aggregated) d
       = fold (entry_step d) flows (map_of aggregated d)"
  by (induction flows arbitrary: aggregated) (simp_all add: map_of_aggregate_own_flow)

lemma keys_aggregate_own_flow:
  "distinct (map fst aggregated) \<Longrightarrow> distinct (map fst (aggregate_own_flow fl aggregated))"
  by (auto simp: aggregate_own_flow_def aggregate_flow_def Let_def keys_obj_map keys_obj_set
      map_of_eq_None_iff split: option.splits)

lemma keys_fold_aggregate_own_flow:
  "distinct (map fst aggregated) \<Longrightarrow> distinct (map fst (fold aggregate_own_flow flows aggregated))"
  by (induction flows arbitrary: aggregated) (simp_all add: keys_aggregate_own_flow)

lemma entry_step_other: "truthy_name (destination fl) \<noteq> Some d \<Longrightarrow> entry_step d fl e = e"
  by (simp add: entry_step_def)

lemma entry_step_Some:
  "truthy_name (destination fl) = Some d \<Longrightarrow> entry_step d fl (Some a) = Some (entry_update fl a)"
  by (simp add: entry_step_def)

lemma entry_step_None:
  "truthy_name (destination fl) = Some d \<Longrightarrow>
     entry_step d fl None = Some (entry_update fl (fresh_aggregate d))"
  by (simp add: entry_step_def)

lemma fold_entry_step_Some:
  "fold (entry_step d) flows (Some a) = Some (fold entry_update (flows_to d flows) a)"
proof (induction flows arbitrary: a)
  case Nil
  then show ?case by (simp add: flows_to_def)
next
  case (Cons fl flows)
  show ?case
  proof (cases "truthy_name (destination fl) = Some d")
    case True
    then show ?thesis
      using Cons.IH [of "entry_update fl a"] by (simp add: entry_step_Some flows_to_def)
  next
    case False
    then show ?thesis
      using Cons.IH [of a] by (simp add: entry_step_other flows_to_def)
  qed
qed

lemma fold_entry_step_None:
  "fold (entry_step d) flows None =
     (if flows_to d flows = [] then None
      else Some (fold entry_update (flows_to d flows) (fresh_aggregate d)))"
proof (induction flows)
  case Nil
  then show ?case by (simp add: flows_to_def)
next
  case (Cons fl flows)
  show ?case
  proof (cases "truthy_name (destination fl) = Some d")
    case True
    then show ?thesis
      using fold_entry_step_Some [of d flows "entry_update fl (fresh_aggregate d)"]
      by (simp add: entry_step_None flows_to_def)
  next
    case False
    then show ?thesis
      using Cons.IH by (simp add: entry_step_other flows_to_def)
  qed
qed

lemma fold_entry_update_fields:
  "agg_destination (fold entry_update fls a) = agg_destination a"
  "top_origins (fold entry_update fls a) = top_origins a"
  "origins (fold entry_update fls a) = fold origin_step fls (origins a)"
  by (induction fls arbitrary: a) (simp_all add: entry_update_def)

lemma fold_entry_update_total:
  "total a + sum_list (map count_or_0 fls) \<le> 2 ^ 53 \<Longrightarrow>
     total (fold entry_update fls a) = total a + sum_list (map count_or_0 fls)"
proof (induction fls arbitrary: a)
  case Nil
  then show ?case by simp
next
  case (Cons fl fls)
  have step: "total (entry_update fl a) = total a + count_or_0 fl"
    using Cons.prems by (simp add: entry_update_def add_double_exact)
  have "total (fold entry_update fls (entry_update fl a))
          = total (entry_update fl a) + sum_list (map count_or_0 fls)"
    using Cons.prems step by (intro Cons.IH) simp
  then show ?case
    using step by simp
qed

lemma set_first_seen: "set (first_seen xs) = set xs"
  by (induction xs) auto

lemma distinct_first_seen: "distinct (first_seen xs)"
  by (induction xs) (auto simp: set_first_seen)

lemma first_seen_snoc:
  "first_seen (xs @ [x]) = (if x \<in> set xs then first_seen xs else first_seen xs @ [x])"
  by (induction xs) auto

lemma origin_names_snoc:
  "origin_names (fls @ [fl]) =
     origin_names fls @ (case truthy_name (origin fl) of None \<Rightarrow> [] | Some n \<Rightarrow> [n])"
  by (simp add: origin_names_def)

lemma origin_total_snoc:
  "origin_total (fls @ [fl]) n =
     origin_total fls n + (if truthy_name (origin fl) = Some n then count_or_0 fl else 0)"
  by (simp add: origin_total_def)

lemma origin_total_unseen: "n \<notin> set (origin_names fls) \<Longrightarrow> origin_total fls n = 0"
  by (induction fls) (auto simp: origin_total_def origin_names_def split: option.splits)

lemma origin_total_le: "origin_total fls n \<le> sum_list (map count_or_0 fls)"
  unfolding origin_total_def by (rule sum_list_filter_le_nat)

lemma map_of_add_origin:
  "map_of (add_origin n c tbl) m =
     (if m = n then Some (add_double (case map_of tbl n of None \<Rightarrow> 0 | Some v \<Rightarrow> v) c)
      else map_of tbl m)"
  by (auto simp: add_origin_def map_of_obj_set split: option.splits)

lemma keys_add_origin:
  "map fst (add_origin n c tbl) = (if n \<in> fst ` set tbl then map fst tbl else map fst tbl @ [n])"
proof (cases "n \<in> fst ` set tbl")
  case True
  then have "n \<in> fst ` set (obj_set n 0 tbl)"
    by (metis keys_obj_set_old list.set_map)
  then show ?thesis
    using True by (auto simp: add_origin_def keys_obj_set_old split: option.splits)
next
  case False
  then have none: "map_of tbl n = None"
    by (simp add: map_of_eq_None_iff)
  have "n \<in> fst ` set (obj_set n 0 tbl)"
    by (metis keys_obj_set_new [OF False] in_set_conv_decomp list.set_map)
  then show ?thesis
    using False none by (simp add: add_origin_def keys_obj_set_old keys_obj_set_new)
qed

lemma origin_step_None: "truthy_name (origin fl) = None \<Longrightarrow> origin_step fl tbl = tbl"
  by (simp add: origin_step_def)

lemma origin_step_Some:
  "truthy_name (origin fl) = Some n \<Longrightarrow> origin_step fl tbl = add_origin n (count_or_0 fl) tbl"
  by (simp add: origin_step_def)

lemma origin_table_keys:
  "map fst (fold origin_step fls []) = first_seen (origin_names fls)"
proof (induction fls rule: rev_induct)
  case Nil
  then show ?case by (simp add: origin_names_def)
next
  case (snoc fl fls)
  let ?tbl = "fold origin_step fls []"
  have dom: "fst ` set ?tbl = set (origin_names fls)"
    using snoc.IH by (metis list.set_map set_first_seen)
  show ?case
  proof (cases "truthy_name (origin fl)")
    case None
    then show ?thesis
      using snoc.IH by (simp add: origin_step_None origin_names_snoc)
  next
    case (Some n)
    then show ?thesis
      using snoc.IH dom
      by (simp add: origin_step_Some keys_add_origin origin_names_snoc first_seen_snoc)
  qed
qed

lemma origin_table_values:
  "sum_list (map count_or_0 fls) \<le> 2 ^ 53 \<Longrightarrow>
     map_of (fold origin_step fls []) n =
       (if n \<in> set (origin_names fls) then Some (origin_total fls n) else None)"
proof (induction fls arbitrary: n rule: rev_induct)
  case Nil
  then show ?case by (simp add: origin_names_def)
next
  case (snoc fl fls)
  have bound: "sum_list (map count_or_0 fls) \<le> 2 ^ 53"
    using snoc.prems by simp
  have vals: "map_of (fold origin_step fls []) m =
                (if m \<in> set (origin_names fls) then Some (origin_total fls m) else None)" for m
    using snoc.IH [OF bound] .
  show ?case
  proof (cases "truthy_name (origin fl)")
    case None
    then show ?thesis
      using vals by (simp add: origin_step_None origin_names_snoc origin_total_snoc)
  next
    case (Some m)
    have "origin_total fls m + count_or_0 fl \<le> 2 ^ 53"
      using origin_total_le [of fls m] snoc.prems by simp
    then have exact: "add_double (origin_total fls m) (count_or_0 fl)
                        = origin_total fls m + count_or_0 fl"
      by (rule add_double_exact)
    have zero: "add_double 0 (count_or_0 fl) = count_or_0 fl"
      using snoc.prems by (simp add: add_double_exact)
    show ?thesis
      using Some vals [of n] vals [of m] origin_total_unseen [of m fls] exact zero
      by (auto simp: origin_step_Some map_of_add_origin origin_names_snoc origin_total_snoc)
  qed
qed

lemma origin_table_entry:
  assumes "sum_list (map count_or_0 fls) \<le> 2 ^ 53"
    and "(n, v) \<in> set (fold origin_step fls [])"
  shows "v = origin_total fls n"
proof -
  have "distinct (map fst (fold origin_step fls []))"
    by (simp add: origin_table_keys distinct_first_seen)
  then have "map_of (fold origin_step fls []) n = Some v"
    using assms(2) by simp
  then show ?thesis
    using origin_table_values [OF assms(1), of n] by (auto split: if_splits)
qed


lemma set_object_entries: "set (object_entries obj) = set obj"
  by (auto simp: object_entries_def)

lemma distinct_keys_sort_key:
  "distinct (map f (sort_key g xs)) = distinct (map f xs)"
  by (simp add: distinct_map)

lemma distinct_object_entries:
  assumes "distinct (map fst obj)"
  shows "distinct (map fst (object_entries obj))"
proof -
  have "distinct (map fst (filter (\<lambda>kv. is_array_index (fst kv)) obj))"
    and "distinct (map fst (filter (\<lambda>kv. \<not> is_array_index (fst kv)) obj))"
    using assms by (simp_all add: distinct_map_filter)
  then show ?thesis
    by (auto simp: object_entries_def distinct_keys_sort_key)
qed

lemma map_insort_key:
  "map g (insort_key (\<lambda>x. f (g x)) x xs) = insort_key f (g x) (map g xs)"
  by (induction xs) simp_all

lemma map_sort_key:
  "map g (sort_key (\<lambda>x. f (g x)) xs) = sort_key f (map g xs)"
  by (induction xs) (simp_all add: map_insort_key)

lemma keys_filter:
  "\<forall>kv \<in> set tbl. P kv \<longleftrightarrow> Q (fst kv) \<Longrightarrow> map fst (filter P tbl) = filter Q (map fst tbl)"
  by (induction tbl) auto

lemma object_entries_keys:
  assumes "\<forall>kv \<in> set tbl. snd kv = g (fst kv)"
  shows "map fst (filter (\<lambda>kv. snd kv = k) (object_entries tbl))
           = sort_key index_value (filter (\<lambda>n. is_array_index n \<and> g n = k) (map fst tbl))
             @ filter (\<lambda>n. \<not> is_array_index n \<and> g n = k) (map fst tbl)"
proof -
  have a: "map fst (filter (\<lambda>kv. is_array_index (fst kv) \<and> snd kv = k) tbl)
             = filter (\<lambda>n. is_array_index n \<and> g n = k) (map fst tbl)"
    using assms by (intro keys_filter) auto
  have b: "map fst (filter (\<lambda>kv. \<not> is_array_index (fst kv) \<and> snd kv = k) tbl)
             = filter (\<lambda>n. \<not> is_array_index n \<and> g n = k) (map fst tbl)"
    using assms by (intro keys_filter) auto
  have "map fst (filter (\<lambda>kv. snd kv = k) (object_entries tbl))
          = map fst (sort_key (\<lambda>kv. index_value (fst kv))
                       (filter (\<lambda>kv. is_array_index (fst kv) \<and> snd kv = k) tbl))
            @ map fst (filter (\<lambda>kv. \<not> is_array_index (fst kv) \<and> snd kv = k) tbl)"
    by (simp add: object_entries_def filter_sort conj_commute)
  also have "\<dots> = sort_key index_value
                      (map fst (filter (\<lambda>kv. is_array_index (fst kv) \<and> snd kv = k) tbl))
                    @ map fst (filter (\<lambda>kv. \<not> is_array_index (fst kv) \<and> snd kv = k) tbl)"
    by (simp only: map_sort_key)
  finally show ?thesis
    by (simp only: a b)
qed

lemma sorted_origins_set:
  "set (sorted_origins a) =
     (\<lambda>kv. \<lparr>origin_name = fst kv, origin_count = snd kv,
             percent = toFixed1_percent (snd kv) (total a)\<rparr>) ` set (origins a)"
  by (simp add: sorted_origins_def set_object_entries)

lemma sorted_origins_descending:
  "sorted_wrt (\<lambda>x y. origin_count y \<le> origin_count x) (sorted_origins a)"
proof -
  have "sorted (map (\<lambda>e. - int (origin_count e)) (sorted_origins a))"
    unfolding sorted_origins_def by (rule sorted_sort_key)
  then have "sorted_wrt (\<lambda>x y. - int (origin_count x) \<le> - int (origin_count y)) (sorted_origins a)"
    by (simp add: sorted_map)
  then show ?thesis
    by (rule sorted_wrt_mono_rel [rotated]) simp
qed

lemma sorted_origins_names_distinct:
  assumes "distinct (map fst (origins a))"
  shows "distinct (map origin_name (sorted_origins a))"
proof -
  have "distinct (map fst (object_entries (origins a)))"
    using assms by (rule distinct_object_entries)
  then show ?thesis
    unfolding sorted_origins_def by (simp add: distinct_keys_sort_key comp_def)
qed

lemma sort_key_stable_pred:
  assumes "\<And>e. P e \<longleftrightarrow> f e = c"
  shows "filter P (sort_key f xs) = filter P xs"
proof -
  have "filter P (sort_key f xs) = filter (\<lambda>e. f e = c) (sort_key f xs)"
    using assms by (intro filter_cong) simp_all
  also have "\<dots> = filter (\<lambda>e. f e = c) xs"
    by (rule sort_key_stable)
  also have "\<dots> = filter P xs"
    using assms by (intro filter_cong) simp_all
  finally show ?thesis .
qed

lemma sorted_origins_stable:
  "filter (\<lambda>e. origin_count e = k) (sorted_origins a) =
     filter (\<lambda>e. origin_count e = k)
       (map (\<lambda>kv. \<lparr>origin_name = fst kv, origin_count = snd kv,
                    percent = toFixed1_percent (snd kv) (total a)\<rparr>)
          (object_entries (origins a)))"
  unfolding sorted_origins_def
  by (rule sort_key_stable_pred [where c = "- int k"]) auto

lemma sorted_origins_ties:
  "map origin_name (filter (\<lambda>e. origin_count e = k) (sorted_origins a))
     = map fst (filter (\<lambda>kv. snd kv = k) (object_entries (origins a)))"
  by (simp add: sorted_origins_stable filter_map comp_def)

lemma sorted_origins_set_top_origins [simp]:
  "sorted_origins (set_top_origins a) = sorted_origins a"
  by (simp add: sorted_origins_def set_top_origins_def)

lemma map_of_map_values:
  "map_of (map (\<lambda>kv. (fst kv, f (snd kv))) xs) k = map_option f (map_of xs k)"
  by (induction xs) auto

lemma aggregateFlowsByDestination_own:
  assumes "list_all own_names flows"
  shows "aggregateFlowsByDestination flows
           = Returns (map (\<lambda>kv. (fst kv, set_top_origins (snd kv)))
                        (fold aggregate_own_flow flows []))"
  by (simp add: aggregateFlowsByDestination_def aggregate_flows_own [OF assms])

lemma map_of_aggregated:
  assumes "list_all own_names flows"
  shows "map_of (map (\<lambda>kv. (fst kv, set_top_origins (snd kv))) (fold aggregate_own_flow flows [])) d =
     (if flows_to d flows = [] then None
      else Some (set_top_origins (fold entry_update (flows_to d flows) (fresh_aggregate d))))"
  by (simp add: map_of_map_values map_of_fold_aggregate_own_flow [OF assms] fold_entry_step_None)

lemma aggregate_entry:
  assumes "a = set_top_origins (fold entry_update F (fresh_aggregate d))"
  shows "agg_destination a = d
        \<and> top_origins a = Some (take 5 (sorted_origins a))
        \<and> sorted_wrt (\<lambda>x y. origin_count y \<le> origin_count x) (sorted_origins a)
        \<and> distinct (map origin_name (sorted_origins a))
        \<and> set (map origin_name (sorted_origins a)) = set (origin_names F)
        \<and> (\<forall>e \<in> set (sorted_origins a).
              percent e = toFixed1_percent (origin_count e) (total a))
        \<and> (sum_list (map count_or_0 F) \<le> 2 ^ 53 \<longrightarrow>
             total a = sum_list (map count_or_0 F)
             \<and> (\<forall>e \<in> set (sorted_origins a). origin_count e = origin_total F (origin_name e))
             \<and> (\<forall>k. map origin_name (filter (\<lambda>e. origin_count e = k) (sorted_origins a))
                      = sort_key index_value
                          (filter (\<lambda>n. is_array_index n \<and> origin_total F n = k)
                             (first_seen (origin_names F)))
                        @ filter (\<lambda>n. \<not> is_array_index n \<and> origin_total F n = k)
                            (first_seen (origin_names F))))"
proof (intro conjI impI)
  let ?tbl = "fold origin_step F []"
  have org: "origins a = ?tbl"
    and dst: "agg_destination a = d"
    and top: "top_origins a = Some (take 5 (sorted_origins a))"
    unfolding assms
    by (simp_all add: set_top_origins_def fold_entry_update_fields fresh_aggregate_def
        sorted_origins_def)
  have keys: "map fst ?tbl = first_seen (origin_names F)"
    by (rule origin_table_keys)
  show "agg_destination a = d" by (rule dst)
  show "top_origins a = Some (take 5 (sorted_origins a))" by (rule top)
  show "sorted_wrt (\<lambda>x y. origin_count y \<le> origin_count x) (sorted_origins a)"
    by (rule sorted_origins_descending)
  show "distinct (map origin_name (sorted_origins a))"
    by (rule sorted_origins_names_distinct) (simp add: org keys distinct_first_seen)
  have "set (map origin_name (sorted_origins a)) = fst ` set ?tbl"
    by (simp add: sorted_origins_set org image_image)
  also have "\<dots> = set (map fst ?tbl)" by simp
  also have "\<dots> = set (origin_names F)" unfolding keys by (rule set_first_seen)
  finally show "set (map origin_name (sorted_origins a)) = set (origin_names F)" .
  show "\<forall>e \<in> set (sorted_origins a). percent e = toFixed1_percent (origin_count e) (total a)"
    by (auto simp: sorted_origins_set)
next
  let ?tbl = "fold origin_step F []"
  assume bound: "sum_list (map count_or_0 F) \<le> 2 ^ 53"
  have org: "origins a = ?tbl"
    unfolding assms by (simp add: set_top_origins_def fold_entry_update_fields fresh_aggregate_def)
  have keys: "map fst ?tbl = first_seen (origin_names F)"
    by (rule origin_table_keys)
  have vals: "\<forall>kv \<in> set ?tbl. snd kv = origin_total F (fst kv)"
    using origin_table_entry [OF bound] by auto
  show "total a = sum_list (map count_or_0 F)"
    unfolding assms using bound
    by (simp add: set_top_origins_def fold_entry_update_total fresh_aggregate_def)
  show "\<forall>e \<in> set (sorted_origins a). origin_count e = origin_total F (origin_name e)"
    using vals by (auto simp: sorted_origins_set org)
  show "\<forall>k. map origin_name (filter (\<lambda>e. origin_count e = k) (sorted_origins a))
               = sort_key index_value
                   (filter (\<lambda>n. is_array_index n \<and> origin_total F n = k)
                      (first_seen (origin_names F)))
                 @ filter (\<lambda>n. \<not> is_array_index n \<and> origin_total F n = k)
                     (first_seen (origin_names F))"
    using object_entries_keys [OF vals] by (simp add: sorted_origins_ties org keys)
qed


text \<open>The quotients and the products by 100 of the test data, as doubles.\<close>

lemma quotient_values:
  "nearest_double 100 150 = (6004799503160661, 9007199254740992)"
  "nearest_double 50 150 = (6004799503160661, 18014398509481984)"
  "nearest_double 30 30 = (4503599627370496, 4503599627370496)"
  "nearest_double 10 20 = (4503599627370496, 9007199254740992)"
  "nearest_double 50 200 = (4503599627370496, 18014398509481984)"
  "nearest_double 23 80 = (5179139571476070, 18014398509481984)"
  "nearest_double 3 2000 = (6917529027641082, 4611686018427387904)"
  "nearest_double 9007199254740992 9007199254740992 = (4503599627370496, 4503599627370496)"
  "nearest_double (Suc 0) 9007199254740992 = (4503599627370496, 40564819207303340847894502572032)"
  by (simp_all add: nearest_double_def scale_def round_half_even_def bits.simps Let_def)

lemma product_values:
  "nearest_double 600479950316066100 9007199254740992 = (4691249611844266, 70368744177664)"
  "nearest_double 600479950316066100 18014398509481984 = (4691249611844266, 140737488355328)"
  "nearest_double 450359962737049600 4503599627370496 = (7036874417766400, 70368744177664)"
  "nearest_double 450359962737049600 9007199254740992 = (7036874417766400, 140737488355328)"
  "nearest_double 450359962737049600 18014398509481984 = (7036874417766400, 281474976710656)"
  "nearest_double 517913957147607000 18014398509481984 = (8092405580431359, 281474976710656)"
  "nearest_double 691752902764108200 4611686018427387904 = (5404319552844595, 36028797018963968)"
  "nearest_double 450359962737049600 40564819207303340847894502572032
     = (7036874417766400, 633825300114114700748351602688)"
  by (simp_all add: nearest_double_def scale_def round_half_even_def bits.simps Let_def)

text \<open>
  The percentages of the test data. The last two differ from the rounding of the exact
  quotients, 28.75 and 0.15: the doubles are a little smaller.
\<close>

lemma percent_values:
  "toFixed1_percent 100 150 = Tenths 667"
  "toFixed1_percent 50 150 = Tenths 333"
  "toFixed1_percent 30 30 = Tenths 1000"
  "toFixed1_percent 10 20 = Tenths 500"
  "toFixed1_percent 50 200 = Tenths 250"
  "toFixed1_percent 9007199254740992 9007199254740992 = Tenths 1000"
  "toFixed1_percent (Suc 0) 9007199254740992 = Tenths 0"
  "toFixed1_percent 23 80 = Tenths 287"
  "toFixed1_percent 3 2000 = Tenths 1"
  by (simp_all add: toFixed1_percent_def quotient_values product_values)

lemma sum_values:
  "add_double 9007199254740992 (Suc 0) = 9007199254740992"
  by (simp add: add_double_def nearest_double_def scale_def round_half_even_def bits.simps Let_def)

lemma names_plain:
  "\<not> is_array_index ''CA''" "\<not> is_array_index ''TX''" "is_array_index ''1''"
  "\<not> is_array_index ''B''" "is_array_index ''7''"
  by (simp_all add: is_array_index_def is_digit_def index_value_def)

lemma names_own:
  "\<not> inherited ''CA''" "\<not> inherited ''TX''" "\<not> inherited ''1''" "\<not> inherited ''B''"
  "\<not> inherited ''7''" "\<not> inherited ''Mexico''" "\<not> inherited ''Guatemala''"
  "inherited ''constructor''"
  by (simp_all add: inherited_def object_prototype_names_def)

lemma scenario_aggregates:
  "aggregateFlowsByDestination scenario_flows =
     Returns [(''Mexico'', mexico_aggregate), (''Guatemala'', guatemala_aggregate)]"
  by (simp add: aggregateFlowsByDestination_def aggregate_flow_def scenario_flows_def
      flow_ca_mexico_def flow_tx_mexico_def flow_ca_guatemala_def california_def texas_def
      mexico_def guatemala_def truthy_name_def count_or_0_def obj_map_def add_origin_def
      set_top_origins_def sorted_origins_def object_entries_def names_plain names_own
      add_double_def percent_values Let_def mexico_aggregate_def guatemala_aggregate_def)

lemma mixed_aggregates:
  "aggregateFlowsByDestination mixed_flows = Returns [(''Mexico'', mixed_aggregate)]"
  by (simp add: aggregateFlowsByDestination_def aggregate_flow_def mixed_flows_def
      flow_tx_mexico_def flow_ca_mexico_50_def flow_7_mexico_50_def flow_1_mexico_50_def
      california_def texas_def mexico_def origin_7_def origin_1_def
      truthy_name_def count_or_0_def obj_map_def add_origin_def set_top_origins_def
      sorted_origins_def object_entries_def names_plain names_own add_double_def percent_values
      index_value_def Let_def mixed_aggregate_def)

text \<open>
  Claim C3 as it is written fails in three places. Of two flows of 10 to Mexico, the first
  from \<^verbatim>\<open>B\<close> and the second from \<^verbatim>\<open>1\<close>, the origins come out as \<^verbatim>\<open>1\<close> then \<^verbatim>\<open>B\<close>,
  although \<^verbatim>\<open>B\<close> was seen first and the counts are equal: \<^verbatim>\<open>Object.keys\<close> lists the
  key \<^verbatim>\<open>1\<close> before every key that is not an array index. A flow to a destination named
  \<^verbatim>\<open>constructor\<close> is not grouped: the call throws. And the counts \<open>2\<^sup>5\<^sup>3\<close> and 1 add up
  to \<open>2\<^sup>5\<^sup>3\<close>, the nearest double, not to their sum.
\<close>

theorem aggregation_counterexamples:
  "aggregateFlowsByDestination [flow_b_mexico, flow_1_mexico] = Returns [(''Mexico'', index_aggregate)]
   \<and> map origin_name (the (top_origins index_aggregate)) = [''1'', ''B'']
   \<and> map origin_count (the (top_origins index_aggregate)) = [10, 10]
   \<and> first_seen (origin_names (flows_to ''Mexico'' [flow_b_mexico, flow_1_mexico])) = [''B'', ''1'']
   \<and> aggregateFlowsByDestination [flow_ca_constructor] = Throws TypeError
   \<and> aggregateFlowsByDestination large_flows = Returns [(''Mexico'', large_aggregate)]
   \<and> total large_aggregate = 9007199254740992
   \<and> sum_list (map count_or_0 (flows_to ''Mexico'' large_flows)) = 9007199254740993"
proof -
  have a: "aggregateFlowsByDestination [flow_b_mexico, flow_1_mexico]
             = Returns [(''Mexico'', index_aggregate)]"
    by (simp add: aggregateFlowsByDestination_def aggregate_flow_def flow_b_mexico_def
        flow_1_mexico_def origin_b_def origin_1_def mexico_def truthy_name_def count_or_0_def
        obj_map_def add_origin_def set_top_origins_def sorted_origins_def object_entries_def
        names_plain names_own add_double_def percent_values Let_def index_aggregate_def)
  have b: "map origin_name (the (top_origins index_aggregate)) = [''1'', ''B'']
      \<and> map origin_count (the (top_origins index_aggregate)) = [10, 10]
      \<and> first_seen (origin_names (flows_to ''Mexico'' [flow_b_mexico, flow_1_mexico])) = [''B'', ''1'']"
    by (simp add: flow_b_mexico_def flow_1_mexico_def origin_b_def origin_1_def mexico_def
        truthy_name_def index_aggregate_def flows_to_def origin_names_def)
  have c: "aggregateFlowsByDestination [flow_ca_constructor] = Throws TypeError"
    by (simp add: aggregateFlowsByDestination_def aggregate_flow_def flow_ca_constructor_def
        place_constructor_def california_def truthy_name_def names_own)
  have d: "aggregateFlowsByDestination large_flows = Returns [(''Mexico'', large_aggregate)]"
    by (simp add: aggregateFlowsByDestination_def aggregate_flow_def large_flows_def
        flow_ca_mexico_large_def flow_tx_mexico_1_def california_def texas_def mexico_def
        truthy_name_def count_or_0_def obj_map_def add_origin_def set_top_origins_def
        sorted_origins_def object_entries_def names_plain names_own add_double_exact sum_values
        percent_values Let_def large_aggregate_def)
  have e: "total large_aggregate = 9007199254740992
      \<and> sum_list (map count_or_0 (flows_to ''Mexico'' large_flows)) = 9007199254740993"
    by (simp add: large_aggregate_def large_flows_def flows_to_def flow_ca_mexico_large_def
        flow_tx_mexico_1_def mexico_def truthy_name_def count_or_0_def)
  show ?thesis
    using a b c d e by simp
qed


text \<open>
  Claim C3, amended. Let no destination or origin name of the flows be a name that
  \<^verbatim>\<open>Object.prototype\<close> has. Then \<^verbatim>\<open>aggregateFlowsByDestination\<close> returns an object with
  one entry for each name that is the destination of a flow, and no other. Its origins,
  sorted, are in descending order of count, one per origin name of these flows, and
  \<^verbatim>\<open>top_origins\<close> holds the first five of them; the percent of each is the text with
  one decimal of the double \<^verbatim>\<open>count / total * 100\<close>. While the counts of the flows to the
  destination add up to at most \<open>2\<^sup>5\<^sup>3\<close>, the total of the entry is their exact sum, the
  count of each origin is the exact sum for that origin, and the origins of equal count
  stand in this order: first those whose name is an array index, in ascending numeric
  order, then the others in the order in which they were first seen. The three records of
  the scenario give a total of 150 for Mexico with CA at 100 (66.7) and TX at 50 (33.3),
  and a total of 30 for Guatemala with CA at 30 (100.0).
\<close>

theorem aggregate_by_destination:
  assumes "list_all own_names flows"
  shows "(\<exists>aggregated.
            aggregateFlowsByDestination flows = Returns aggregated
            \<and> distinct (map fst aggregated)
            \<and> (\<forall>d. map_of aggregated d = None \<longleftrightarrow> flows_to d flows = [])
            \<and> (\<forall>d a. map_of aggregated d = Some a \<longrightarrow>
                  agg_destination a = d
                  \<and> top_origins a = Some (take 5 (sorted_origins a))
                  \<and> sorted_wrt (\<lambda>x y. origin_count y \<le> origin_count x) (sorted_origins a)
                  \<and> distinct (map origin_name (sorted_origins a))
                  \<and> set (map origin_name (sorted_origins a)) = set (origin_names (flows_to d flows))
                  \<and> (\<forall>e \<in> set (sorted_origins a).
                        percent e = toFixed1_percent (origin_count e) (total a))
                  \<and> (sum_list (map count_or_0 (flows_to d flows)) \<le> 2 ^ 53 \<longrightarrow>
                       total a = sum_list (map count_or_0 (flows_to d flows))
                       \<and> (\<forall>e \<in> set (sorted_origins a).
                             origin_count e = origin_total (flows_to d flows) (origin_name e))
                       \<and> (\<forall>k. map origin_name (filter (\<lambda>e. origin_count e = k) (sorted_origins a))
                                = sort_key index_value
                                    (filter (\<lambda>n. is_array_index n
                                                  \<and> origin_total (flows_to d flows) n = k)
                                       (first_seen (origin_names (flows_to d flows))))
                                  @ filter (\<lambda>n. \<not> is_array_index n
                                                 \<and> origin_total (flows_to d flows) n = k)
                                      (first_seen (origin_names (flows_to d flows)))))))
         \<and> aggregateFlowsByDestination scenario_flows
              = Returns [(''Mexico'', mexico_aggregate), (''Guatemala'', guatemala_aggregate)]"
proof (intro conjI exI allI impI)
  let ?agg = "map (\<lambda>kv. (fst kv, set_top_origins (snd kv))) (fold aggregate_own_flow flows [])"
  show "aggregateFlowsByDestination flows = Returns ?agg"
    by (rule aggregateFlowsByDestination_own [OF assms])
  have "distinct (map fst (fold aggregate_own_flow flows []))"
    by (rule keys_fold_aggregate_own_flow) simp
  then show "distinct (map fst ?agg)"
    by (simp add: comp_def)
  show "map_of ?agg d = None \<longleftrightarrow> flows_to d flows = []" for d
    by (simp add: map_of_aggregated [OF assms])
  show "aggregateFlowsByDestination scenario_flows
          = Returns [(''Mexico'', mexico_aggregate), (''Guatemala'', guatemala_aggregate)]"
    by (rule scenario_aggregates)
next
  fix d a
  let ?agg = "map (\<lambda>kv. (fst kv, set_top_origins (snd kv))) (fold aggregate_own_flow flows [])"
  let ?F = "flows_to d flows"
  assume "map_of ?agg d = Some a"
  then have a: "a = set_top_origins (fold entry_update ?F (fresh_aggregate d))"
    by (simp add: map_of_aggregated [OF assms] split: if_splits)
  note entry = aggregate_entry [OF a]
  show "agg_destination a = d"
    and "top_origins a = Some (take 5 (sorted_origins a))"
    and "sorted_wrt (\<lambda>x y. origin_count y \<le> origin_count x) (sorted_origins a)"
    and "distinct (map origin_name (sorted_origins a))"
    and "set (map origin_name (sorted_origins a)) = set (origin_names ?F)"
    and "\<forall>e \<in> set (sorted_origins a). percent e = toFixed1_percent (origin_count e) (total a)"
    using entry by blast+
  assume bound: "sum_list (map count_or_0 ?F) \<le> 2 ^ 53"
  show "total a = sum_list (map count_or_0 ?F)"
    and "\<forall>e \<in> set (sorted_origins a). origin_count e = origin_total ?F (origin_name e)"
    and "map origin_name (filter (\<lambda>e. origin_count e = k) (sorted_origins a))
           = sort_key index_value
               (filter (\<lambda>n. is_array_index n \<and> origin_total ?F n = k)
                  (first_seen (origin_names ?F)))
             @ filter (\<lambda>n. \<not> is_array_index n \<and> origin_total ?F n = k)
                 (first_seen (origin_names ?F))" for k
    using entry bound by blast+
qed

theorem aggregate_by_destination_witness:
  "list_all own_names mixed_flows
   \<and> aggregateFlowsByDestination mixed_flows = Returns [(''Mexico'', mixed_aggregate)]
   \<and> flows_to ''Mexico'' mixed_flows = mixed_flows
   \<and> flows_to ''Brazil'' mixed_flows = []
   \<and> map_of [(''Mexico'', mixed_aggregate)] ''Brazil'' = None
   \<and> sum_list (map count_or_0 (flows_to ''Mexico'' mixed_flows)) = 200
   \<and> total mixed_aggregate = 200
   \<and> top_origins mixed_aggregate = Some (take 5 (sorted_origins mixed_aggregate))
   \<and> first_seen (origin_names (flows_to ''Mexico'' mixed_flows)) = [''TX'', ''7'', ''CA'', ''1'']
   \<and> map origin_name (filter (\<lambda>e. origin_count e = 50) (sorted_origins mixed_aggregate))
        = [''1'', ''7'', ''TX'', ''CA'']"
proof -
  have own: "list_all own_names mixed_flows"
    by (simp add: mixed_flows_def own_names_def flow_tx_mexico_def flow_ca_mexico_50_def
        flow_7_mexico_50_def flow_1_mexico_50_def california_def texas_def mexico_def
        origin_7_def origin_1_def truthy_name_def names_own)
  have fm: "flows_to ''Mexico'' mixed_flows = mixed_flows"
    and fb: "flows_to ''Brazil'' mixed_flows = []"
    by (simp_all add: flows_to_def mixed_flows_def flow_tx_mexico_def flow_ca_mexico_50_def
        flow_7_mexico_50_def flow_1_mexico_50_def mexico_def truthy_name_def)
  have names: "origin_names mixed_flows = [''TX'', ''7'', ''CA'', ''1'']"
    by (simp add: origin_names_def mixed_flows_def flow_tx_mexico_def flow_ca_mexico_50_def
        flow_7_mexico_50_def flow_1_mexico_50_def california_def texas_def origin_7_def
        origin_1_def truthy_name_def)
  have totals: "origin_total mixed_flows ''TX'' = 50" "origin_total mixed_flows ''7'' = 50"
    "origin_total mixed_flows ''CA'' = 50" "origin_total mixed_flows ''1'' = 50"
    by (simp_all add: origin_total_def mixed_flows_def flow_tx_mexico_def flow_ca_mexico_50_def
        flow_7_mexico_50_def flow_1_mexico_50_def california_def texas_def origin_7_def
        origin_1_def truthy_name_def count_or_0_def)
  have sum: "sum_list (map count_or_0 mixed_flows) = 200"
    by (simp add: mixed_flows_def flow_tx_mexico_def flow_ca_mexico_50_def
        flow_7_mexico_50_def flow_1_mexico_50_def count_or_0_def)
  have order: "index_value ''7'' = 7" "index_value ''1'' = 1"
    by (simp_all add: index_value_def)
  obtain aggregated where res: "aggregateFlowsByDestination mixed_flows = Returns aggregated"
    and none: "\<forall>d. map_of aggregated d = None \<longleftrightarrow> flows_to d mixed_flows = []"
    and entry: "\<forall>d a. map_of aggregated d = Some a \<longrightarrow>
        agg_destination a = d
        \<and> top_origins a = Some (take 5 (sorted_origins a))
        \<and> sorted_wrt (\<lambda>x y. origin_count y \<le> origin_count x) (sorted_origins a)
        \<and> distinct (map origin_name (sorted_origins a))
        \<and> set (map origin_name (sorted_origins a)) = set (origin_names (flows_to d mixed_flows))
        \<and> (\<forall>e \<in> set (sorted_origins a).
              percent e = toFixed1_percent (origin_count e) (total a))
        \<and> (sum_list (map count_or_0 (flows_to d mixed_flows)) \<le> 2 ^ 53 \<longrightarrow>
             total a = sum_list (map count_or_0 (flows_to d mixed_flows))
             \<and> (\<forall>e \<in> set (sorted_origins a).
                   origin_count e = origin_total (flows_to d mixed_flows) (origin_name e))
             \<and> (\<forall>k. map origin_name (filter (\<lambda>e. origin_count e = k) (sorted_origins a))
                      = sort_key index_value
                          (filter (\<lambda>n. is_array_index n
                                        \<and> origin_total (flows_to d mixed_flows) n = k)
                             (first_seen (origin_names (flows_to d mixed_flows))))
                        @ filter (\<lambda>n. \<not> is_array_index n
                                       \<and> origin_total (flows_to d mixed_flows) n = k)
                            (first_seen (origin_names (flows_to d mixed_flows)))))"
    using aggregate_by_destination [OF own] by blast
  have agg: "aggregated = [(''Mexico'', mixed_aggregate)]"
    using res by (simp add: mixed_aggregates)
  have here: "map_of aggregated ''Mexico'' = Some mixed_aggregate"
    by (simp add: agg)
  have bound: "sum_list (map count_or_0 (flows_to ''Mexico'' mixed_flows)) \<le> 2 ^ 53"
    by (simp add: fm sum)
  have t: "total mixed_aggregate = 200"
    using entry here bound fm sum by metis
  have top: "top_origins mixed_aggregate = Some (take 5 (sorted_origins mixed_aggregate))"
    using entry here by blast
  have "map origin_name (filter (\<lambda>e. origin_count e = 50) (sorted_origins mixed_aggregate))
          = sort_key index_value
              (filter (\<lambda>n. is_array_index n
                            \<and> origin_total (flows_to ''Mexico'' mixed_flows) n = 50)
                 (first_seen (origin_names (flows_to ''Mexico'' mixed_flows))))
            @ filter (\<lambda>n. \<not> is_array_index n
                           \<and> origin_total (flows_to ''Mexico'' mixed_flows) n = 50)
                (first_seen (origin_names (flows_to ''Mexico'' mixed_flows)))"
    using entry here bound by blast
  then have ties: "map origin_name (filter (\<lambda>e. origin_count e = 50) (sorted_origins mixed_aggregate))
          = [''1'', ''7'', ''TX'', ''CA'']"
    by (simp add: fm names totals names_plain order)
  have nb: "map_of [(''Mexico'', mixed_aggregate)] ''Brazil'' = None"
    using none fb agg by simp
  have seen: "first_seen (origin_names (flows_to ''Mexico'' mixed_flows)) = [''TX'', ''7'', ''CA'', ''1'']"
    by (simp add: fm names)
  show ?thesis
    using own res agg fm fb nb sum t top seen ties by simp
qed


end
